theory Spec2Isabelle
  imports Complex_Main "HOL-Library.Log_Nat" "HOL-Library.Multiset"
begin

section \<open>The scheduler-cluster searcher of the manager (manager/searcher/searcher.go)\<close>

subsection \<open>float64 arithmetic\<close>

text \<open>
  A finite float64 is represented by the rational number it denotes. Every float64
  operation of the source is the exact operation followed by rounding to the nearest
  float64, ties to the even significand (IEEE 754 binary64: 53 significant bits, least
  normal exponent -1022, gradual underflow below it). Overflow to infinity is not
  represented: no value of this program exceeds 1 in magnitude. Products and sums are
  rounded one by one, which is what Go computes where it does not fuse a product and a
  sum into one operation (amd64 by default).
\<close>

type_synonym float64 = rat

definition ilog2 :: "rat \<Rightarrow> int" where
  \<comment> \<open>for \<open>0 < a\<close>, the exponent \<open>e\<close> with \<open>2 powi e \<le> a < 2 powi (e + 1)\<close>\<close>
  "ilog2 a = (let (p, q) = quotient_of a; d = bitlen p - bitlen q
              in if 2 powi d \<le> a then d else d - 1)"

definition round_even :: "rat \<Rightarrow> int" where
  "round_even m = (let n = \<lfloor>m\<rfloor>; r = m - of_int n in
     if r < 1 / 2 then n else if 1 / 2 < r then n + 1 else if even n then n else n + 1)"

definition f64_round :: "rat \<Rightarrow> float64" where
  "f64_round x = (if x = 0 then 0 else
     let a = \<bar>x\<bar>; e = max (- 1022) (ilog2 a); u = 2 powi (e - 52)
     in sgn x * of_int (round_even (a / u)) * u)"

definition fadd :: "float64 \<Rightarrow> float64 \<Rightarrow> float64" where
  "fadd x y = f64_round (x + y)"

definition fmul :: "float64 \<Rightarrow> float64 \<Rightarrow> float64" where
  "fmul x y = f64_round (x * y)"

definition fdiv :: "float64 \<Rightarrow> float64 \<Rightarrow> float64" where
  "fdiv x y = f64_round (x / y)"

subsection \<open>Constants\<close>

definition ConditionSecurityDomain :: string where
  "ConditionSecurityDomain = ''security_domain''"

definition ConditionIDC :: string where
  "ConditionIDC = ''idc''"

definition ConditionLocation :: string where
  "ConditionLocation = ''location''"

text \<open>The weights are decimal constants converted to float64.\<close>

definition securityDomainAffinityWeight :: float64 where
  "securityDomainAffinityWeight = f64_round (4 / 10)"

definition cidrAffinityWeight :: float64 where
  "cidrAffinityWeight = f64_round (3 / 10)"

definition idcAffinityWeight :: float64 where
  "idcAffinityWeight = f64_round (15 / 100)"

definition locationAffinityWeight :: float64 where
  "locationAffinityWeight = f64_round (1 / 10)"

definition clusterTypeWeight :: float64 where
  "clusterTypeWeight = f64_round (5 / 100)"

definition maxScore :: float64 where
  "maxScore = 1"

definition minScore :: float64 where
  "minScore = 0"

definition maxElementLen :: nat where
  "maxElementLen = 5"

definition AffinitySeparator :: string where
  \<comment> \<open>Modelled from the spec: \<open>types.AffinitySeparator\<close> (package pkg/types) is not part
      of the source at hand; the spec separates alternatives and segments by \<open>|\<close>.\<close>
  "AffinitySeparator = ''|''"

subsection \<open>Data model\<close>

text \<open>
  Modelled from the spec: package manager/model is not part of the source at hand. Its
  rows \<open>SchedulerCluster\<close>, \<open>SecurityGroup\<close> and \<open>SecurityRule\<close> are records of the fields
  the searcher reads, as the spec's data model names them. Of the schedulers of a cluster
  only their number is read; they are kept by identifier. \<open>Scopes\<close> of a cluster is an
  untyped JSON object (\<open>model.JSONMap\<close>); the record \<open>Scopes\<close> it decodes into is the
  struct of the searcher itself. \<open>math.Min\<close> of package pkg/math, missing as well, is \<open>min\<close>.
\<close>

datatype JSON = JNull | JBool bool | JNumber int | JString string | JArray "JSON list"
  | JObject "(string \<times> JSON) list"

type_synonym JSONMap = "(string \<times> JSON) list"

record SecurityRule =
  RuleDomain :: string

record SecurityGroup =
  SecurityRules :: "SecurityRule list"

record SchedulerCluster =
  Name :: string
  Scopes :: JSONMap
  IsDefault :: bool
  Schedulers :: "nat list"
  SecurityGroup :: SecurityGroup

record Scopes =
  IDC :: string
  Location :: string
  CIDRs :: "string list"

type_synonym conditions = "string \<rightharpoonup> string"

definition index :: "conditions \<Rightarrow> string \<Rightarrow> string" where
  \<comment> \<open>the Go index expression \<open>m[k]\<close> of a \<open>map[string]string\<close>: the empty string for
      a missing key\<close>
  "index m k = (case m k of None \<Rightarrow> [] | Some v \<Rightarrow> v)"

datatype error = EmptySchedulerClusters | ConditionsNotMatch conditions

subsection \<open>IP addresses, networks and the range index\<close>

text \<open>
  An address is its family and its value as a number (below \<open>2 ^ 32\<close> or \<open>2 ^ 128\<close>); a
  network is a base address and the number of leading ones of its mask. The PC-trie
  ranger of package cidranger is modelled by the networks inserted into it: \<open>Contains\<close>
  answers whether one of them covers the address, and fails with
  \<open>ErrInvalidNetworkNumberInput\<close> on the nil address, which is what \<open>net.ParseIP\<close> returns
  for text that is no address.
\<close>

datatype IP = IPv4 int | IPv6 int

record IPNet =
  IP :: IP
  Mask :: nat

datatype ranger_error = ErrInvalidNetworkInput | ErrInvalidNetworkNumberInput

type_synonym Ranger = "IPNet list"

definition NewPCTrieRanger :: Ranger where
  "NewPCTrieRanger = []"

definition covers :: "IPNet \<Rightarrow> IP \<Rightarrow> bool" where
  "covers network a =
     (case (IP network, a) of
        (IPv4 b, IPv4 x) \<Rightarrow> b div 2 ^ (32 - Mask network) = x div 2 ^ (32 - Mask network)
      | (IPv6 b, IPv6 x) \<Rightarrow> b div 2 ^ (128 - Mask network) = x div 2 ^ (128 - Mask network)
      | _ \<Rightarrow> False)"

definition Contains :: "Ranger \<Rightarrow> IP option \<Rightarrow> ranger_error + bool" where
  "Contains ranger ip =
     (case ip of
        None \<Rightarrow> Inl ErrInvalidNetworkNumberInput
      | Some a \<Rightarrow> Inr (\<exists>network \<in> set ranger. covers network a))"

subsection \<open>Library functions the searcher calls\<close>

text \<open>
  The functions of the Go standard library and of third-party packages that the
  searcher calls are parameters of the model: \<open>strings.EqualFold\<close>,
  \<open>net.ParseCIDR\<close> (\<open>None\<close> for an error), \<open>net.ParseIP\<close> (\<open>None\<close> for the nil
  address), \<open>mapstructure.Decode\<close> into a \<open>Scopes\<close> value (\<open>None\<close> for an error) and
  \<open>sort.Slice\<close>, which is given the comparison of two elements. Whether the ranger's
  \<open>Insert\<close> fails is the library's as well: \<open>InsertError\<close> gives the error with which it
  refuses a network, given the networks inserted so far (\<open>None\<close> when it inserts). Every
  theorem below holds for all of them, unless it states what it assumes.
\<close>

record externs =
  EqualFold :: "string \<Rightarrow> string \<Rightarrow> bool"
  ParseCIDR :: "string \<Rightarrow> IPNet option"
  ParseIP :: "string \<Rightarrow> IP option"
  Decode :: "JSONMap \<Rightarrow> Scopes option"
  Slice :: "(SchedulerCluster \<Rightarrow> SchedulerCluster \<Rightarrow> bool) \<Rightarrow>
            SchedulerCluster list \<Rightarrow> SchedulerCluster list"
  InsertError :: "Ranger \<Rightarrow> IPNet \<Rightarrow> ranger_error option"

definition Insert :: "externs \<Rightarrow> Ranger \<Rightarrow> IPNet \<Rightarrow> ranger_error + Ranger" where
  \<comment> \<open>a refused network leaves the ranger as it was\<close>
  "Insert L ranger network =
     (case InsertError L ranger network of
        Some err \<Rightarrow> Inl err
      | None \<Rightarrow> Inr (ranger @ [network]))"

text \<open>\<open>strings.Split\<close> for a separator that is not empty.\<close>

function splitFrom :: "string \<Rightarrow> string \<Rightarrow> string \<Rightarrow> string list" where
  "splitFrom sep cur [] = [cur]"
| "splitFrom sep cur (c # cs) =
     (if sep \<noteq> [] \<and> take (length sep) (c # cs) = sep
      then cur # splitFrom sep [] (drop (length sep) (c # cs))
      else splitFrom sep (cur @ [c]) cs)"
  by pat_completeness auto
termination
  by (relation "measure (\<lambda>(sep, cur, s). length s)") auto

definition Split :: "string \<Rightarrow> string \<Rightarrow> string list" where
  "Split s sep = splitFrom sep [] s"

subsection \<open>The five sub-scores\<close>

definition calculateSecurityDomainAffinityScore :: "string \<Rightarrow> SecurityRule list \<Rightarrow> float64" where
  "calculateSecurityDomainAffinityScore securityDomain securityRules =
     (if securityDomain = [] then minScore
      else if length securityRules = 0 then minScore
      else maxScore)"

fun insertCIDRs :: "externs \<Rightarrow> Ranger \<Rightarrow> string list \<Rightarrow> Ranger" where
  "insertCIDRs L ranger [] = ranger"
| "insertCIDRs L ranger (cidr # cidrs) =
     (case ParseCIDR L cidr of
        None \<Rightarrow> insertCIDRs L ranger cidrs
      | Some network \<Rightarrow>
          (case Insert L ranger network of
             Inl err \<Rightarrow> insertCIDRs L ranger cidrs
           | Inr ranger' \<Rightarrow> insertCIDRs L ranger' cidrs))"

definition calculateCIDRAffinityScore :: "externs \<Rightarrow> string \<Rightarrow> string list \<Rightarrow> float64" where
  "calculateCIDRAffinityScore L ip cidrs =
     (let ranger = insertCIDRs L NewPCTrieRanger cidrs in
      case Contains ranger (ParseIP L ip) of
        Inl err \<Rightarrow> minScore
      | Inr contains \<Rightarrow> if \<not> contains then minScore else maxScore)"

fun matchElements :: "externs \<Rightarrow> string \<Rightarrow> string list \<Rightarrow> float64" where
  "matchElements L dst [] = minScore"
| "matchElements L dst (srcElement # srcElements) =
     (if EqualFold L dst srcElement then maxScore else matchElements L dst srcElements)"

definition calculateIDCAffinityScore :: "externs \<Rightarrow> string \<Rightarrow> string \<Rightarrow> float64" where
  "calculateIDCAffinityScore L dst src =
     (if dst = [] \<or> src = [] then minScore
      else if EqualFold L dst src then maxScore
      else matchElements L dst (Split src AffinitySeparator))"

function countMatches :: "externs \<Rightarrow> string list \<Rightarrow> string list \<Rightarrow> nat \<Rightarrow> nat \<Rightarrow> nat \<Rightarrow> nat" where
  "countMatches L dstElements srcElements elementLen i score =
     (if i < elementLen
      then (if \<not> EqualFold L (dstElements ! i) (srcElements ! i) then score
            else countMatches L dstElements srcElements elementLen (i + 1) (score + 1))
      else score)"
  by pat_completeness auto
termination
  by (relation "measure (\<lambda>(L, ds, ss, n, i, score). n - i)") auto

declare countMatches.simps [simp del]

definition calculateMultiElementAffinityScore :: "externs \<Rightarrow> string \<Rightarrow> string \<Rightarrow> float64" where
  "calculateMultiElementAffinityScore L dst src =
     (if dst = [] \<or> src = [] then minScore
      else if EqualFold L dst src then maxScore
      else
        let dstElements = Split dst AffinitySeparator;
            srcElements = Split src AffinitySeparator;
            elementLen = min (length dstElements) (length srcElements);
            elementLen = (if elementLen > maxElementLen then maxElementLen else elementLen);
            score = countMatches L dstElements srcElements elementLen 0 0
        in fdiv (of_nat score) (of_nat maxElementLen))"

definition calculateClusterTypeScore :: "SchedulerCluster \<Rightarrow> float64" where
  "calculateClusterTypeScore cluster = (if IsDefault cluster then maxScore else minScore)"

subsection \<open>Evaluate\<close>

definition Evaluate ::
  "externs \<Rightarrow> string \<Rightarrow> string \<Rightarrow> conditions \<Rightarrow> Scopes \<Rightarrow> SchedulerCluster \<Rightarrow> float64" where
  "Evaluate L ip hostname conds scopes cluster =
     fadd (fadd (fadd (fadd
       (fmul securityDomainAffinityWeight
          (calculateSecurityDomainAffinityScore (index conds ConditionSecurityDomain)
             (SecurityRules (SecurityGroup cluster))))
       (fmul cidrAffinityWeight (calculateCIDRAffinityScore L ip (CIDRs scopes))))
       (fmul idcAffinityWeight (calculateIDCAffinityScore L (index conds ConditionIDC) (IDC scopes))))
       (fmul locationAffinityWeight
          (calculateMultiElementAffinityScore L (index conds ConditionLocation) (Location scopes))))
       (fmul clusterTypeWeight (calculateClusterTypeScore cluster))"

subsection \<open>FilterSchedulerClusters\<close>

fun matchRules ::
  "externs \<Rightarrow> string \<Rightarrow> SchedulerCluster \<Rightarrow> SecurityRule list \<Rightarrow> SchedulerCluster list \<Rightarrow>
   SchedulerCluster list" where
  "matchRules L securityDomain schedulerCluster [] clusters = clusters"
| "matchRules L securityDomain schedulerCluster (securityRule # securityRules) clusters =
     matchRules L securityDomain schedulerCluster securityRules
       (if EqualFold L (RuleDomain securityRule) securityDomain
        then clusters @ [schedulerCluster] else clusters)"

fun filterLoop ::
  "externs \<Rightarrow> string \<Rightarrow> SchedulerCluster list \<Rightarrow> SchedulerCluster list \<Rightarrow> SchedulerCluster list" where
  "filterLoop L securityDomain [] clusters = clusters"
| "filterLoop L securityDomain (schedulerCluster # schedulerClusters) clusters =
     (if length (Schedulers schedulerCluster) = 0
      then filterLoop L securityDomain schedulerClusters clusters
      else if securityDomain = []
      then filterLoop L securityDomain schedulerClusters (clusters @ [schedulerCluster])
      else if IsDefault schedulerCluster
      then filterLoop L securityDomain schedulerClusters (clusters @ [schedulerCluster])
      else if length (SecurityRules (SecurityGroup schedulerCluster)) = 0
      then filterLoop L securityDomain schedulerClusters (clusters @ [schedulerCluster])
      else filterLoop L securityDomain schedulerClusters
             (matchRules L securityDomain schedulerCluster
                (SecurityRules (SecurityGroup schedulerCluster)) clusters))"

definition FilterSchedulerClusters ::
  "externs \<Rightarrow> conditions \<Rightarrow> SchedulerCluster list \<Rightarrow> SchedulerCluster list" where
  "FilterSchedulerClusters L conds schedulerClusters =
     filterLoop L (index conds ConditionSecurityDomain) schedulerClusters []"

subsection \<open>FindSchedulerClusters\<close>

definition lessFunc ::
  "externs \<Rightarrow> string \<Rightarrow> string \<Rightarrow> conditions \<Rightarrow> SchedulerCluster \<Rightarrow> SchedulerCluster \<Rightarrow> bool" where
  \<comment> \<open>the comparison handed to \<open>sort.Slice\<close>, on the two elements it indexes\<close>
  "lessFunc L ip hostname conds ci cj =
     (case Decode L (Scopes ci) of
        None \<Rightarrow> False
      | Some si \<Rightarrow>
          (case Decode L (Scopes cj) of
             None \<Rightarrow> False
           | Some sj \<Rightarrow> Evaluate L ip hostname conds si ci > Evaluate L ip hostname conds sj cj))"

definition FindSchedulerClusters ::
  "externs \<Rightarrow> SchedulerCluster list \<Rightarrow> string \<Rightarrow> string \<Rightarrow> conditions \<Rightarrow>
   error + SchedulerCluster list" where
  "FindSchedulerClusters L schedulerClusters ip hostname conds =
     (if length schedulerClusters \<le> 0 then Inl EmptySchedulerClusters
      else
        let clusters = FilterSchedulerClusters L conds schedulerClusters in
        if length clusters = 0 then Inl (ConditionsNotMatch conds)
        else Inr (Slice L (lessFunc L ip hostname conds) clusters))"

subsection \<open>The claims in the words of the specification\<close>

definition matchedPrefixLength :: "externs \<Rightarrow> string \<Rightarrow> string \<Rightarrow> nat" where
  \<comment> \<open>the spec's location rule: over the first \<open>n\<close> segment pairs, the length of the run
      of matching pairs that starts at index 0\<close>
  "matchedPrefixLength L client cluster =
     (let clientSegments = Split client ''|'';
          clusterSegments = Split cluster ''|'';
          n = min (min (length clientSegments) (length clusterSegments)) 5
      in length (takeWhile (\<lambda>(a, b). EqualFold L a b)
                   (take n (zip clientSegments clusterSegments))))"

definition strictWeakOrder :: "'a set \<Rightarrow> ('a \<Rightarrow> 'a \<Rightarrow> bool) \<Rightarrow> bool" where
  \<comment> \<open>what \<open>sort.Slice\<close> requires of its comparison, on the elements being sorted\<close>
  "strictWeakOrder A lt \<longleftrightarrow>
     (\<forall>a\<in>A. \<not> lt a a) \<and>
     (\<forall>a\<in>A. \<forall>b\<in>A. \<forall>c\<in>A. lt a b \<longrightarrow> lt b c \<longrightarrow> lt a c) \<and>
     (\<forall>a\<in>A. \<forall>b\<in>A. \<forall>c\<in>A. \<not> lt a b \<longrightarrow> \<not> lt b c \<longrightarrow> \<not> lt a c)"

definition rearranges :: "(('a \<Rightarrow> 'a \<Rightarrow> bool) \<Rightarrow> 'a list \<Rightarrow> 'a list) \<Rightarrow> bool" where
  \<comment> \<open>whatever the comparison, \<open>sort.Slice\<close> only swaps elements of the slice\<close>
  "rearranges srt \<longleftrightarrow> (\<forall>lt xs. mset (srt lt xs) = mset xs)"

definition sortContract :: "(('a \<Rightarrow> 'a \<Rightarrow> bool) \<Rightarrow> 'a list \<Rightarrow> 'a list) \<Rightarrow> bool" where
  \<comment> \<open>the contract of \<open>sort.Slice\<close>: the elements are rearranged, and they are in order
      when the comparison is a strict weak order on them\<close>
  "sortContract srt \<longleftrightarrow>
     rearranges srt \<and>
     (\<forall>lt xs. strictWeakOrder (set xs) lt \<longrightarrow> sorted_wrt (\<lambda>a b. \<not> lt b a) (srt lt xs))"

definition eligible :: "externs \<Rightarrow> string \<Rightarrow> SchedulerCluster \<Rightarrow> bool" where
  \<comment> \<open>the spec's filter rules 1 to 5 for a client that declares \<open>securityDomain\<close>\<close>
  "eligible L securityDomain c \<longleftrightarrow>
     Schedulers c \<noteq> [] \<and>
     (securityDomain = [] \<or> IsDefault c \<or> SecurityRules (SecurityGroup c) = [] \<or>
      (\<exists>rule \<in> set (SecurityRules (SecurityGroup c)). EqualFold L (RuleDomain rule) securityDomain))"

definition insertsAll :: "externs \<Rightarrow> string list \<Rightarrow> bool" where
  \<comment> \<open>the ranger refuses none of the networks that the entries parse to\<close>
  "insertsAll L cidrs \<longleftrightarrow>
     (\<forall>ranger. \<forall>cidr \<in> set cidrs. \<forall>network.
        ParseCIDR L cidr = Some network \<longrightarrow> InsertError L ranger network = None)"

definition scoreOf ::
  "externs \<Rightarrow> string \<Rightarrow> string \<Rightarrow> conditions \<Rightarrow> SchedulerCluster \<Rightarrow> float64" where
  \<comment> \<open>the combined score of a cluster whose scopes decode (0 stands in where they do not)\<close>
  "scoreOf L ip hostname conds c =
     (case Decode L (Scopes c) of
        None \<Rightarrow> 0
      | Some scopes \<Rightarrow> Evaluate L ip hostname conds scopes c)"

subsection \<open>A concrete library for the examples\<close>

text \<open>
  An instance of the library functions on which the examples below are evaluated:
  case folding of ASCII letters; IPv4 addresses in dotted decimal (four octets of at most
  255 without leading zeros) and their CIDR blocks (a prefix length of at most 32);
  decoding of a JSON object into \<open>Scopes\<close> without weak typing (a missing key or a null
  leaves the zero value, a value of another kind than the field's is an error); and the
  insertion sort that \<open>sort.Slice\<close> runs on a slice of at most 12 elements, which moves
  each element towards the front while it is less than the element before it. Its
  ranger refuses no network. \<open>refusingZero\<close> is the same library with a ranger that
  refuses the network of mask length 0, for the examples of a failing insertion.
\<close>

definition toLower :: "char \<Rightarrow> char" where
  "toLower c =
     (case map_of (zip ''ABCDEFGHIJKLMNOPQRSTUVWXYZ'' ''abcdefghijklmnopqrstuvwxyz'') c of
        None \<Rightarrow> c
      | Some l \<Rightarrow> l)"

definition asciiEqualFold :: "string \<Rightarrow> string \<Rightarrow> bool" where
  "asciiEqualFold s t \<longleftrightarrow> map toLower s = map toLower t"

definition digitVal :: "char \<Rightarrow> int option" where
  "digitVal c = map_of (zip ''0123456789'' [0, 1, 2, 3, 4, 5, 6, 7, 8, 9]) c"

fun dtoi :: "string \<Rightarrow> int \<Rightarrow> int option" where
  "dtoi [] n = Some n"
| "dtoi (c # cs) n = (case digitVal c of None \<Rightarrow> None | Some d \<Rightarrow> dtoi cs (n * 10 + d))"

definition decimal :: "string \<Rightarrow> int option" where
  "decimal s = (if s = [] then None else dtoi s 0)"

definition octet :: "string \<Rightarrow> int option" where
  "octet s =
     (case decimal s of
        None \<Rightarrow> None
      | Some n \<Rightarrow> if n > 255 \<or> (length s > 1 \<and> take 1 s = ''0'') then None else Some n)"

definition parseIPv4 :: "string \<Rightarrow> IP option" where
  "parseIPv4 s =
     (case map octet (Split s ''.'') of
        [Some a, Some b, Some c, Some d] \<Rightarrow> Some (IPv4 (((a * 256 + b) * 256 + c) * 256 + d))
      | _ \<Rightarrow> None)"

definition parseCIDRv4 :: "string \<Rightarrow> IPNet option" where
  "parseCIDRv4 s =
     (case Split s ''/'' of
        [addr, bits] \<Rightarrow>
          (case (parseIPv4 addr, decimal bits) of
             (Some (IPv4 a), Some n) \<Rightarrow>
               if n > 32 then None
               else Some \<lparr>IP = IPv4 (a div 2 ^ (32 - nat n) * 2 ^ (32 - nat n)), Mask = nat n\<rparr>
           | _ \<Rightarrow> None)
      | _ \<Rightarrow> None)"

fun decodeString :: "JSON option \<Rightarrow> string option" where
  "decodeString None = Some []"
| "decodeString (Some JNull) = Some []"
| "decodeString (Some (JString s)) = Some s"
| "decodeString (Some _) = None"

fun decodeElements :: "JSON list \<Rightarrow> string list option" where
  "decodeElements [] = Some []"
| "decodeElements (x # xs) =
     (case (decodeString (Some x), decodeElements xs) of
        (Some s, Some ss) \<Rightarrow> Some (s # ss)
      | _ \<Rightarrow> None)"

fun decodeStrings :: "JSON option \<Rightarrow> string list option" where
  "decodeStrings None = Some []"
| "decodeStrings (Some JNull) = Some []"
| "decodeStrings (Some (JArray xs)) = decodeElements xs"
| "decodeStrings (Some _) = None"

definition decodeScopes :: "JSONMap \<Rightarrow> Scopes option" where
  "decodeScopes m =
     (case (decodeString (map_of m ''idc''), decodeString (map_of m ''location''),
            decodeStrings (map_of m ''cidrs'')) of
        (Some i, Some l, Some c) \<Rightarrow> Some \<lparr>IDC = i, Location = l, CIDRs = c\<rparr>
      | _ \<Rightarrow> None)"

fun sift :: "('a \<Rightarrow> 'a \<Rightarrow> bool) \<Rightarrow> 'a \<Rightarrow> 'a list \<Rightarrow> 'a list" where
  \<comment> \<open>the inner loop of the insertion sort: the sorted prefix is held last element first,
      and the new element moves down while it is less than its neighbour\<close>
  "sift lt x [] = [x]"
| "sift lt x (y # ys) = (if lt x y then y # sift lt x ys else x # y # ys)"

definition insertionSort :: "('a \<Rightarrow> 'a \<Rightarrow> bool) \<Rightarrow> 'a list \<Rightarrow> 'a list" where
  "insertionSort lt xs = rev (foldl (\<lambda>prefix x. sift lt x prefix) [] xs)"

definition stdlib :: externs where
  "stdlib = \<lparr>EqualFold = asciiEqualFold, ParseCIDR = parseCIDRv4, ParseIP = parseIPv4,
              Decode = decodeScopes, Slice = insertionSort,
              InsertError = (\<lambda>ranger network. None)\<rparr>"

definition refusingZero :: externs where
  "refusingZero = \<lparr>EqualFold = asciiEqualFold, ParseCIDR = parseCIDRv4, ParseIP = parseIPv4,
              Decode = decodeScopes, Slice = insertionSort,
              InsertError = (\<lambda>ranger network.
                if Mask network = 0 then Some ErrInvalidNetworkInput else None)\<rparr>"

text \<open>Clusters for the examples; each has one active scheduler unless said otherwise.\<close>

definition plainCluster :: SchedulerCluster where
  "plainCluster = \<lparr>Name = ''plain'', Scopes = [], IsDefault = False, Schedulers = [1],
     SecurityGroup = \<lparr>SecurityRules = []\<rparr>\<rparr>"

definition defaultCluster :: SchedulerCluster where
  "defaultCluster = \<lparr>Name = ''default'', Scopes = [], IsDefault = True, Schedulers = [1],
     SecurityGroup = \<lparr>SecurityRules = []\<rparr>\<rparr>"

definition edgeCluster :: SchedulerCluster where
  "edgeCluster = \<lparr>Name = ''edge'',
     Scopes = [(''cidrs'', JArray [JString ''10.0.0.0/24'']), (''idc'', JString ''x'')],
     IsDefault = False, Schedulers = [1], SecurityGroup = \<lparr>SecurityRules = []\<rparr>\<rparr>"

definition brokenCluster :: SchedulerCluster where
  \<comment> \<open>its idc is a number, which does not decode into the string field\<close>
  "brokenCluster = \<lparr>Name = ''broken'', Scopes = [(''idc'', JNumber 1)], IsDefault = False,
     Schedulers = [1], SecurityGroup = \<lparr>SecurityRules = []\<rparr>\<rparr>"

definition idleCluster :: SchedulerCluster where
  \<comment> \<open>a default cluster without an active scheduler\<close>
  "idleCluster = \<lparr>Name = ''idle'', Scopes = [], IsDefault = True, Schedulers = [],
     SecurityGroup = \<lparr>SecurityRules = []\<rparr>\<rparr>"

definition guardedCluster :: SchedulerCluster where
  \<comment> \<open>two security rules whose domains differ in case only\<close>
  "guardedCluster = \<lparr>Name = ''guarded'', Scopes = [], IsDefault = False, Schedulers = [1],
     SecurityGroup = \<lparr>SecurityRules = [\<lparr>RuleDomain = ''A''\<rparr>, \<lparr>RuleDomain = ''a''\<rparr>]\<rparr>\<rparr>"

section \<open>Properties\<close>

subsection \<open>Rounding to float64 is monotone\<close>

lemma bitlen_rat_bounds:
  assumes "0 < p"
  shows "2 powi (bitlen p - 1) \<le> (of_int p :: rat)" and "(of_int p :: rat) < 2 powi (bitlen p)"
proof -
  have ge1: "1 \<le> bitlen p"
    using assms bitlen_nonneg [of p] bitlen_eq_zero_iff [of p] by linarith
  from bitlen_bounds [OF assms]
  have b: "2 ^ nat (bitlen p - 1) \<le> p" "p < 2 ^ nat (bitlen p)" by simp_all
  from b(1) have "(2::rat) ^ nat (bitlen p - 1) \<le> of_int p" by simp
  with ge1 show "2 powi (bitlen p - 1) \<le> (of_int p :: rat)"
    by (simp add: power_int_nonneg_exp)
  from b(2) have "(of_int p :: rat) < 2 ^ nat (bitlen p)" by simp
  with ge1 show "(of_int p :: rat) < 2 powi (bitlen p)"
    by (simp add: power_int_nonneg_exp)
qed

lemma ilog2_bounds:
  assumes "0 < a"
  shows "2 powi (ilog2 a) \<le> a" and "a < 2 powi (ilog2 a + 1)"
proof -
  obtain p q where pq: "quotient_of a = (p, q)" by (cases "quotient_of a")
  have q: "0 < q" using quotient_of_denom_pos [OF pq] .
  have a: "a = of_int p / of_int q" using quotient_of_div [OF pq] .
  have p: "0 < p" using assms q unfolding a by (simp add: zero_less_divide_iff)
  define d where "d = bitlen p - bitlen q"
  note P = bitlen_rat_bounds [OF p] and Q = bitlen_rat_bounds [OF q]
  have qpos: "(0::rat) < of_int q" using q by simp
  have "(2::rat) powi (d - 1) * of_int q < 2 powi (d - 1) * 2 powi (bitlen q)"
    using Q(2) by (simp add: mult_strict_left_mono)
  also have "\<dots> = 2 powi (bitlen p - 1)"
    by (simp add: d_def flip: power_int_add)
  also have "\<dots> \<le> of_int p" by (rule P(1))
  finally have lo: "2 powi (d - 1) < a"
    unfolding a using qpos by (simp add: pos_less_divide_eq)
  have "of_int p < (2::rat) powi (bitlen p)" by (rule P(2))
  also have "\<dots> = 2 powi (d + 1) * 2 powi (bitlen q - 1)"
    by (simp add: d_def flip: power_int_add)
  also have "\<dots> \<le> 2 powi (d + 1) * of_int q"
    using Q(1) by (simp add: mult_left_mono)
  finally have hi: "a < 2 powi (d + 1)"
    unfolding a using qpos by (simp add: pos_divide_less_eq)
  have e: "ilog2 a = (if 2 powi d \<le> a then d else d - 1)"
    by (simp add: ilog2_def pq d_def Let_def)
  show "2 powi (ilog2 a) \<le> a" using lo by (simp add: e)
  show "a < 2 powi (ilog2 a + 1)" using hi by (simp add: e)
qed

lemma powi2_less_imp: "(2::rat) powi m < 2 powi n \<Longrightarrow> m < n"
proof (rule ccontr)
  assume a: "(2::rat) powi m < 2 powi n" and "\<not> m < n"
  then have "n \<le> m" by simp
  then have "(2::rat) powi n \<le> 2 powi m" by (rule power_int_increasing) simp
  with a show False by simp
qed

lemma ilog2_mono:
  assumes "0 < a" "a \<le> b"
  shows "ilog2 a \<le> ilog2 b"
proof -
  have "2 powi (ilog2 a) \<le> a" using assms(1) by (rule ilog2_bounds)
  also note assms(2)
  also have "b < 2 powi (ilog2 b + 1)" using assms by (intro ilog2_bounds) simp
  finally have "ilog2 a < ilog2 b + 1" by (rule powi2_less_imp)
  then show ?thesis by simp
qed

lemma round_even_of_int: "round_even (of_int n) = n"
  by (simp add: round_even_def)

lemma round_even_0: "round_even 0 = 0"
  using round_even_of_int [of 0] by simp

lemma powi2_split:
  "(2::rat) powi (e + 1) = 2 ^ 53 * 2 powi (e - 52)" "(2::rat) powi e = 2 ^ 52 * 2 powi (e - 52)"
proof -
  have "e + 1 = 53 + (e - 52)" by simp
  then have "(2::rat) powi (e + 1) = 2 powi (53 + (e - 52))" by (rule arg_cong)
  also have "\<dots> = 2 powi 53 * 2 powi (e - 52)" by (rule power_int_add) simp
  finally show "(2::rat) powi (e + 1) = 2 ^ 53 * 2 powi (e - 52)" by simp
  have "e = 52 + (e - 52)" by simp
  then have "(2::rat) powi e = 2 powi (52 + (e - 52))" by (rule arg_cong)
  also have "\<dots> = 2 powi 52 * 2 powi (e - 52)" by (rule power_int_add) simp
  finally show "(2::rat) powi e = 2 ^ 52 * 2 powi (e - 52)" by simp
qed

lemma round_even_floor: "\<lfloor>m\<rfloor> \<le> round_even m" and round_even_floor1: "round_even m \<le> \<lfloor>m\<rfloor> + 1"
  by (simp_all add: round_even_def Let_def)

lemma round_even_mono:
  assumes "m \<le> m'"
  shows "round_even m \<le> round_even m'"
proof (cases "\<lfloor>m\<rfloor> = \<lfloor>m'\<rfloor>")
  case True
  with assms show ?thesis by (auto simp add: round_even_def Let_def)
next
  case False
  with assms have "\<lfloor>m\<rfloor> < \<lfloor>m'\<rfloor>" using floor_mono [OF assms] by simp
  then have "round_even m \<le> \<lfloor>m'\<rfloor>" using round_even_floor1 [of m] by simp
  also have "\<dots> \<le> round_even m'" by (rule round_even_floor)
  finally show ?thesis .
qed

lemma f64_round_pos:
  "0 < x \<Longrightarrow> f64_round x =
     of_int (round_even (x / 2 powi (max (- 1022) (ilog2 x) - 52))) * 2 powi (max (- 1022) (ilog2 x) - 52)"
  by (simp add: f64_round_def Let_def)

lemma f64_round_zero: "f64_round 0 = 0"
  by (simp add: f64_round_def)

lemma f64_round_nonneg:
  assumes "0 \<le> x"
  shows "0 \<le> f64_round x"
proof (cases "x = 0")
  case True
  then show ?thesis by (simp add: f64_round_zero)
next
  case False
  with assms have x: "0 < x" by simp
  define u :: rat where "u = 2 powi (max (- 1022) (ilog2 x) - 52)"
  have u: "0 < u" by (simp add: u_def)
  have "round_even 0 \<le> round_even (x / u)"
    using x u by (intro round_even_mono) simp
  then have "0 \<le> round_even (x / u)" by (simp add: round_even_0)
  then show ?thesis using u by (simp add: f64_round_pos [OF x] flip: u_def)
qed

lemma f64_round_mono_pos:
  assumes x: "0 < x" and xy: "x \<le> y"
  shows "f64_round x \<le> f64_round y"
proof -
  have y: "0 < y" using x xy by simp
  define ex where "ex = max (- 1022) (ilog2 x)"
  define ey where "ey = max (- 1022) (ilog2 y)"
  define ux :: rat where "ux = 2 powi (ex - 52)"
  define uy :: rat where "uy = 2 powi (ey - 52)"
  have ux: "0 < ux" and uy: "0 < uy" by (simp_all add: ux_def uy_def)
  have rx: "f64_round x = of_int (round_even (x / ux)) * ux"
    by (simp add: f64_round_pos [OF x] ux_def ex_def)
  have ry: "f64_round y = of_int (round_even (y / uy)) * uy"
    by (simp add: f64_round_pos [OF y] uy_def ey_def)
  have exy: "ex \<le> ey" using ilog2_mono [OF x xy] by (simp add: ex_def ey_def)
  show ?thesis
  proof (cases "ex = ey")
    case True
    then have "ux = uy" by (simp add: ux_def uy_def)
    moreover have "round_even (x / uy) \<le> round_even (y / uy)"
      using xy uy by (intro round_even_mono) (simp add: divide_right_mono)
    ultimately show ?thesis using uy by (simp add: rx ry)
  next
    case False
    with exy have lt: "ex < ey" by simp
    have "x < 2 powi (ilog2 x + 1)" using x by (rule ilog2_bounds)
    also have "\<dots> \<le> 2 powi (ex + 1)"
      by (rule power_int_increasing) (simp_all add: ex_def)
    finally have "x / ux < 2 powi (ex + 1) / ux" using ux by (simp add: divide_strict_right_mono)
    also have "2 powi (ex + 1) / ux = 2 ^ 53"
      using ux by (simp add: powi2_split(1) [of ex] flip: ux_def)
    finally have "x / ux \<le> of_int (2 ^ 53)" by simp
    then have "round_even (x / ux) \<le> round_even (of_int (2 ^ 53))" by (rule round_even_mono)
    then have "round_even (x / ux) \<le> 2 ^ 53" by (simp only: round_even_of_int)
    then have "(of_int (round_even (x / ux)) :: rat) \<le> of_int (2 ^ 53)" by (simp only: of_int_le_iff)
    then have "f64_round x \<le> of_int (2 ^ 53) * ux" using ux by (simp add: rx)
    also have "\<dots> = 2 powi (ex + 1)"
      by (simp add: powi2_split(1) [of ex] flip: ux_def)
    finally have up: "f64_round x \<le> 2 powi (ex + 1)" .
    have ey_eq: "ey = ilog2 y" using lt unfolding ex_def ey_def by linarith
    have "2 powi ey \<le> y" unfolding ey_eq using y by (rule ilog2_bounds)
    then have "2 powi ey / uy \<le> y / uy" using uy by (simp add: divide_right_mono)
    moreover have "2 powi ey / uy = of_int (2 ^ 52)"
      using uy by (simp add: powi2_split(2) [of ey] flip: uy_def)
    ultimately have "of_int (2 ^ 52) \<le> y / uy" by simp
    then have "round_even (of_int (2 ^ 52)) \<le> round_even (y / uy)" by (rule round_even_mono)
    then have "2 ^ 52 \<le> round_even (y / uy)" by (simp only: round_even_of_int)
    then have "(of_int (2 ^ 52) :: rat) \<le> of_int (round_even (y / uy))" by (simp only: of_int_le_iff)
    then have "of_int (2 ^ 52) * uy \<le> f64_round y" using uy by (simp add: ry)
    moreover have "of_int (2 ^ 52) * uy = 2 powi ey"
      by (simp add: powi2_split(2) [of ey] flip: uy_def)
    ultimately have low: "2 powi ey \<le> f64_round y" by simp
    have "(2::rat) powi (ex + 1) \<le> 2 powi ey"
      using lt by (intro power_int_increasing) simp_all
    with up low show ?thesis by linarith
  qed
qed

lemma f64_round_mono:
  assumes "0 \<le> x" "x \<le> y"
  shows "f64_round x \<le> f64_round y"
proof (cases "x = 0")
  case True
  with assms show ?thesis by (simp add: f64_round_zero f64_round_nonneg)
next
  case False
  with assms show ?thesis by (intro f64_round_mono_pos) simp_all
qed

subsection \<open>The weights and their sum in float64\<close>

lemma weight_values:
  "securityDomainAffinityWeight = 3602879701896397 / 9007199254740992"
  "cidrAffinityWeight = 5404319552844595 / 18014398509481984"
  "idcAffinityWeight = 5404319552844595 / 36028797018963968"
  "locationAffinityWeight = 3602879701896397 / 36028797018963968"
  "clusterTypeWeight = 3602879701896397 / 72057594037927936"
  by code_simp+

lemma f64_round_one: "f64_round 1 = 1"
  by code_simp

lemma weights_representable:
  "f64_round (3602879701896397 / 9007199254740992) = 3602879701896397 / 9007199254740992"
  "f64_round (5404319552844595 / 18014398509481984) = 5404319552844595 / 18014398509481984"
  "f64_round (5404319552844595 / 36028797018963968) = 5404319552844595 / 36028797018963968"
  "f64_round (3602879701896397 / 36028797018963968) = 3602879701896397 / 36028797018963968"
  "f64_round (3602879701896397 / 72057594037927936) = 3602879701896397 / 72057594037927936"
  by code_simp+

lemma weights_sum_steps:
  "fadd (3602879701896397 / 9007199254740992) (5404319552844595 / 18014398509481984)
     = 3152519739159347 / 4503599627370496"
  "fadd (3152519739159347 / 4503599627370496) (5404319552844595 / 36028797018963968)
     = 7656119366529843 / 9007199254740992"
  "fadd (7656119366529843 / 9007199254740992) (3602879701896397 / 36028797018963968)
     = 4278419646001971 / 4503599627370496"
  "fadd (4278419646001971 / 4503599627370496) (3602879701896397 / 72057594037927936) = 1"
  by code_simp+

lemma weights_sum:
  "fadd (fadd (fadd (fadd securityDomainAffinityWeight cidrAffinityWeight) idcAffinityWeight)
     locationAffinityWeight) clusterTypeWeight = 1"
  by (simp only: weight_values weights_sum_steps)

lemma fmul_bounds:
  assumes "0 \<le> w" "f64_round w = w" "0 \<le> s" "s \<le> 1"
  shows "0 \<le> fmul w s" and "fmul w s \<le> w"
proof -
  have "0 \<le> w * s" using assms by simp
  then show "0 \<le> fmul w s" unfolding fmul_def by (rule f64_round_nonneg)
  have "w * s \<le> w" using assms by (simp add: mult_left_le)
  with \<open>0 \<le> w * s\<close> have "f64_round (w * s) \<le> f64_round w" by (rule f64_round_mono)
  then show "fmul w s \<le> w" by (simp add: fmul_def assms(2))
qed

lemma fadd_bounds:
  assumes "0 \<le> a" "a \<le> a'" "0 \<le> b" "b \<le> b'"
  shows "0 \<le> fadd a b" and "fadd a b \<le> fadd a' b'"
proof -
  have "0 \<le> a + b" using assms by simp
  then show "0 \<le> fadd a b" unfolding fadd_def by (rule f64_round_nonneg)
  have "a + b \<le> a' + b'" using assms by simp
  with \<open>0 \<le> a + b\<close> show "fadd a b \<le> fadd a' b'" unfolding fadd_def by (rule f64_round_mono)
qed

lemma weighted_sum_bounds:
  assumes "0 \<le> s1" "s1 \<le> 1" "0 \<le> s2" "s2 \<le> 1" "0 \<le> s3" "s3 \<le> 1"
    "0 \<le> s4" "s4 \<le> 1" "0 \<le> s5" "s5 \<le> 1"
  shows "0 \<le> fadd (fadd (fadd (fadd (fmul securityDomainAffinityWeight s1)
            (fmul cidrAffinityWeight s2)) (fmul idcAffinityWeight s3))
            (fmul locationAffinityWeight s4)) (fmul clusterTypeWeight s5)"
    and "fadd (fadd (fadd (fadd (fmul securityDomainAffinityWeight s1)
            (fmul cidrAffinityWeight s2)) (fmul idcAffinityWeight s3))
            (fmul locationAffinityWeight s4)) (fmul clusterTypeWeight s5) \<le> 1"
proof -
  have w: "0 \<le> securityDomainAffinityWeight" "0 \<le> cidrAffinityWeight" "0 \<le> idcAffinityWeight"
    "0 \<le> locationAffinityWeight" "0 \<le> clusterTypeWeight"
    by (simp_all add: weight_values)
  have r: "f64_round securityDomainAffinityWeight = securityDomainAffinityWeight"
    "f64_round cidrAffinityWeight = cidrAffinityWeight"
    "f64_round idcAffinityWeight = idcAffinityWeight"
    "f64_round locationAffinityWeight = locationAffinityWeight"
    "f64_round clusterTypeWeight = clusterTypeWeight"
    by (simp_all only: weight_values weights_representable)
  note p1 = fmul_bounds [OF w(1) r(1) assms(1,2)]
  note p2 = fmul_bounds [OF w(2) r(2) assms(3,4)]
  note p3 = fmul_bounds [OF w(3) r(3) assms(5,6)]
  note p4 = fmul_bounds [OF w(4) r(4) assms(7,8)]
  note p5 = fmul_bounds [OF w(5) r(5) assms(9,10)]
  note a1 = fadd_bounds [OF p1 p2]
  note a2 = fadd_bounds [OF a1 p3]
  note a3 = fadd_bounds [OF a2 p4]
  note a4 = fadd_bounds [OF a3 p5]
  show "0 \<le> fadd (fadd (fadd (fadd (fmul securityDomainAffinityWeight s1)
            (fmul cidrAffinityWeight s2)) (fmul idcAffinityWeight s3))
            (fmul locationAffinityWeight s4)) (fmul clusterTypeWeight s5)"
    by (rule a4(1))
  have "fadd (fadd (fadd (fadd (fmul securityDomainAffinityWeight s1)
            (fmul cidrAffinityWeight s2)) (fmul idcAffinityWeight s3))
            (fmul locationAffinityWeight s4)) (fmul clusterTypeWeight s5)
        \<le> fadd (fadd (fadd (fadd securityDomainAffinityWeight cidrAffinityWeight)
              idcAffinityWeight) locationAffinityWeight) clusterTypeWeight"
    by (rule a4(2))
  then show "fadd (fadd (fadd (fadd (fmul securityDomainAffinityWeight s1)
            (fmul cidrAffinityWeight s2)) (fmul idcAffinityWeight s3))
            (fmul locationAffinityWeight s4)) (fmul clusterTypeWeight s5) \<le> 1"
    by (simp only: weights_sum)
qed

subsection \<open>The sub-scores\<close>

lemma securityDomain_score_cases:
  "calculateSecurityDomainAffinityScore securityDomain securityRules =
     (if securityDomain \<noteq> [] \<and> securityRules \<noteq> [] then 1 else 0)"
  by (simp add: calculateSecurityDomainAffinityScore_def minScore_def maxScore_def)

lemma insertCIDRs_append:
  "insertCIDRs L ranger (cidrs @ cidrs') = insertCIDRs L (insertCIDRs L ranger cidrs) cidrs'"
  by (induction cidrs arbitrary: ranger) (auto split: option.splits sum.splits)

lemma insertCIDRs_keeps: "set ranger \<subseteq> set (insertCIDRs L ranger cidrs)"
  by (induction cidrs arbitrary: ranger)
     (fastforce simp: Insert_def split: option.splits sum.splits)+

lemma insertCIDRs_parsed:
  "set (insertCIDRs L ranger cidrs) \<subseteq>
     set ranger \<union> {network. \<exists>cidr \<in> set cidrs. ParseCIDR L cidr = Some network}"
  by (induction cidrs arbitrary: ranger)
     (fastforce simp: Insert_def split: option.splits sum.splits)+

lemma set_insertCIDRs:
  "insertsAll L cidrs \<Longrightarrow>
   set (insertCIDRs L ranger cidrs) =
     set ranger \<union> {network. \<exists>cidr \<in> set cidrs. ParseCIDR L cidr = Some network}"
proof (induction cidrs arbitrary: ranger)
  case Nil
  then show ?case by simp
next
  case (Cons cidr cidrs)
  from Cons.prems have rest: "insertsAll L cidrs" by (simp add: insertsAll_def)
  show ?case
  proof (cases "ParseCIDR L cidr")
    case None
    then show ?thesis using Cons.IH [OF rest] by auto
  next
    case (Some network)
    with Cons.prems have "InsertError L ranger network = None" by (simp add: insertsAll_def)
    with Some show ?thesis using Cons.IH [OF rest] by (auto simp: Insert_def)
  qed
qed

lemma cidr_score_cases:
  "calculateCIDRAffinityScore L ip cidrs =
     (if \<exists>a. ParseIP L ip = Some a \<and>
           (\<exists>network \<in> set (insertCIDRs L NewPCTrieRanger cidrs). covers network a)
      then 1 else 0)"
  by (auto simp: calculateCIDRAffinityScore_def Contains_def minScore_def maxScore_def
      split: option.splits)

lemma matchElements_cases:
  "matchElements L dst srcElements =
     (if \<exists>srcElement \<in> set srcElements. EqualFold L dst srcElement then 1 else 0)"
  by (induction srcElements) (auto simp: minScore_def maxScore_def)

lemma idc_score_cases:
  "calculateIDCAffinityScore L dst src =
     (if dst = [] \<or> src = [] then 0
      else if EqualFold L dst src \<or> (\<exists>alternative \<in> set (Split src ''|''). EqualFold L dst alternative)
      then 1 else 0)"
  by (simp add: calculateIDCAffinityScore_def matchElements_cases AffinitySeparator_def
      minScore_def maxScore_def)

lemma countMatches_takeWhile:
  "i \<le> n \<Longrightarrow> n \<le> length ds \<Longrightarrow> n \<le> length ss \<Longrightarrow>
   countMatches L ds ss n i score =
     score + length (takeWhile (\<lambda>(a, b). EqualFold L a b) (take (n - i) (drop i (zip ds ss))))"
proof (induction L ds ss n i score rule: countMatches.induct)
  case (1 L ds ss n i score)
  show ?case
  proof (cases "i < n")
    case False
    with "1.prems" have "i = n" by simp
    then show ?thesis by (simp add: countMatches.simps)
  next
    case True
    with "1.prems" have len: "i < length (zip ds ss)" by simp
    have d: "drop i (zip ds ss) = (ds ! i, ss ! i) # drop (Suc i) (zip ds ss)"
      using Cons_nth_drop_Suc [OF len] len by simp
    have t: "n - i = Suc (n - Suc i)" using True by simp
    show ?thesis
    proof (cases "EqualFold L (ds ! i) (ss ! i)")
      case False
      with True show ?thesis by (simp add: countMatches.simps [of L ds ss n i] d t)
    next
      case eq: True
      have "countMatches L ds ss n i score = countMatches L ds ss n (i + 1) (score + 1)"
        using True eq by (simp add: countMatches.simps [of L ds ss n i])
      also have "\<dots> = score + 1 + length (takeWhile (\<lambda>(a, b). EqualFold L a b)
          (take (n - (i + 1)) (drop (i + 1) (zip ds ss))))"
        using True eq "1.prems" by (intro "1.IH") simp_all
      finally show ?thesis using eq by (simp add: d t)
    qed
  qed
qed

lemma countMatches_le: "countMatches L ds ss n i score \<le> score + (n - i)"
proof (induction L ds ss n i score rule: countMatches.induct)
  case (1 L ds ss n i score)
  show ?case
  proof (cases "i < n \<and> EqualFold L (ds ! i) (ss ! i)")
    case True
    then have "countMatches L ds ss n i score = countMatches L ds ss n (i + 1) (score + 1)"
      by (simp add: countMatches.simps [of L ds ss n i])
    also have "\<dots> \<le> score + 1 + (n - (i + 1))" using True by (intro "1.IH") simp_all
    finally show ?thesis using True by arith
  next
    case False
    then show ?thesis by (auto simp add: countMatches.simps [of L ds ss n i])
  qed
qed

lemma location_score_cases:
  "calculateMultiElementAffinityScore L dst src =
     (if dst = [] \<or> src = [] then 0
      else if EqualFold L dst src then 1
      else fdiv (of_nat (matchedPrefixLength L dst src)) 5)"
proof -
  define ds where "ds = Split dst AffinitySeparator"
  define ss where "ss = Split src AffinitySeparator"
  define m where "m = (if min (length ds) (length ss) > maxElementLen then maxElementLen
            else min (length ds) (length ss))"
  define n where "n = min (min (length ds) (length ss)) 5"
  have mn: "m = n" unfolding m_def n_def maxElementLen_def by arith
  have n: "n \<le> length ds" "n \<le> length ss" by (simp_all add: n_def)
  have code: "calculateMultiElementAffinityScore L dst src =
     (if dst = [] \<or> src = [] then 0 else if EqualFold L dst src then 1
      else fdiv (of_nat (countMatches L ds ss m 0 0)) 5)"
    by (simp add: calculateMultiElementAffinityScore_def Let_def minScore_def maxScore_def
        maxElementLen_def m_def ds_def ss_def)
  have loop: "countMatches L ds ss n 0 0 =
      length (takeWhile (\<lambda>(a, b). EqualFold L a b) (take n (zip ds ss)))"
    using countMatches_takeWhile [of 0 n ds ss L 0] n by simp
  have spec: "matchedPrefixLength L dst src =
      length (takeWhile (\<lambda>(a, b). EqualFold L a b) (take n (zip ds ss)))"
    by (simp add: matchedPrefixLength_def Let_def ds_def ss_def n_def AffinitySeparator_def)
  show ?thesis by (simp only: code mn loop spec)
qed

lemma location_score_bounds:
  "0 \<le> calculateMultiElementAffinityScore L dst src"
  "calculateMultiElementAffinityScore L dst src \<le> 1"
proof -
  define ds where "ds = Split dst AffinitySeparator"
  define ss where "ss = Split src AffinitySeparator"
  define n where "n = (if min (length ds) (length ss) > maxElementLen then maxElementLen
            else min (length ds) (length ss))"
  define k where "k = countMatches L ds ss n 0 0"
  have "k \<le> n" using countMatches_le [of L ds ss n 0 0] by (simp add: k_def)
  moreover have "n \<le> 5" unfolding n_def maxElementLen_def by arith
  ultimately have k: "k \<le> 5" by simp
  have q: "(0::rat) \<le> of_nat k / 5" "(of_nat k :: rat) / 5 \<le> 1" using k by simp_all
  have "0 \<le> fdiv (of_nat k) 5" unfolding fdiv_def using q(1) by (rule f64_round_nonneg)
  moreover have "fdiv (of_nat k) 5 \<le> 1"
    unfolding fdiv_def using f64_round_mono [OF q] by (simp add: f64_round_one)
  moreover have "calculateMultiElementAffinityScore L dst src =
     (if dst = [] \<or> src = [] then 0 else if EqualFold L dst src then 1 else fdiv (of_nat k) 5)"
    by (simp add: calculateMultiElementAffinityScore_def Let_def minScore_def maxScore_def
        maxElementLen_def k_def n_def ds_def ss_def)
  ultimately show "0 \<le> calculateMultiElementAffinityScore L dst src"
    "calculateMultiElementAffinityScore L dst src \<le> 1" by simp_all
qed

lemma clusterType_score_cases:
  "calculateClusterTypeScore cluster = (if IsDefault cluster then 1 else 0)"
  by (simp add: calculateClusterTypeScore_def minScore_def maxScore_def)

lemma Evaluate_bounds:
  "0 \<le> Evaluate L ip hostname conds scopes cluster"
  "Evaluate L ip hostname conds scopes cluster \<le> 1"
  unfolding Evaluate_def
  by (rule weighted_sum_bounds;
      simp add: securityDomain_score_cases cidr_score_cases idc_score_cases
        clusterType_score_cases location_score_bounds)+

subsection \<open>The filter\<close>

lemma set_matchRules:
  "set (matchRules L securityDomain c rules clusters) =
     set clusters \<union>
     (if \<exists>rule \<in> set rules. EqualFold L (RuleDomain rule) securityDomain then {c} else {})"
  by (induction rules arbitrary: clusters) auto

lemma set_filterLoop:
  "set (filterLoop L securityDomain schedulerClusters clusters) =
     set clusters \<union> {c \<in> set schedulerClusters. eligible L securityDomain c}"
  by (induction schedulerClusters arbitrary: clusters) (auto simp: set_matchRules eligible_def)

lemma set_FilterSchedulerClusters:
  "set (FilterSchedulerClusters L conds schedulerClusters) =
     {c \<in> set schedulerClusters. eligible L (index conds ConditionSecurityDomain) c}"
  by (simp add: FilterSchedulerClusters_def set_filterLoop)

subsection \<open>Insertion sort meets the contract of sort.Slice\<close>

lemma mset_sift: "mset (sift lt x ys) = add_mset x (mset ys)"
  by (induction ys) auto

lemma mset_foldl_sift: "mset (foldl (\<lambda>prefix x. sift lt x prefix) acc xs) = mset acc + mset xs"
  by (induction xs arbitrary: acc) (auto simp: mset_sift)

lemma mset_insertionSort: "mset (insertionSort lt xs) = mset xs"
  by (simp add: insertionSort_def mset_foldl_sift)

lemma set_sift: "set (sift lt x ys) = insert x (set ys)"
  by (induction ys) auto

lemma sorted_sift:
  assumes "strictWeakOrder A lt" "x \<in> A" "set ys \<subseteq> A" "sorted_wrt (\<lambda>a b. \<not> lt a b) ys"
  shows "sorted_wrt (\<lambda>a b. \<not> lt a b) (sift lt x ys)"
  using assms(3,4)
proof (induction ys)
  case Nil
  then show ?case by simp
next
  case (Cons y ys)
  have y: "y \<in> A" using Cons.prems by simp
  show ?case
  proof (cases "lt x y")
    case True
    have "\<not> lt y x"
    proof
      assume "lt y x"
      with True assms(1,2) y have "lt x x" unfolding strictWeakOrder_def by blast
      with assms(1,2) show False unfolding strictWeakOrder_def by blast
    qed
    with True Cons show ?thesis by (auto simp: set_sift)
  next
    case False
    have "\<not> lt x z" if "z \<in> set ys" for z
    proof -
      have "\<not> lt y z" using that Cons.prems by simp
      moreover have "z \<in> A" using that Cons.prems by auto
      ultimately show ?thesis
        using False assms(1,2) y unfolding strictWeakOrder_def by blast
    qed
    with False Cons.prems show ?thesis by auto
  qed
qed

lemma sorted_foldl_sift:
  assumes "strictWeakOrder A lt"
  shows "set xs \<subseteq> A \<Longrightarrow> set acc \<subseteq> A \<Longrightarrow> sorted_wrt (\<lambda>a b. \<not> lt a b) acc \<Longrightarrow>
    sorted_wrt (\<lambda>a b. \<not> lt a b) (foldl (\<lambda>prefix x. sift lt x prefix) acc xs)"
proof (induction xs arbitrary: acc)
  case Nil
  then show ?case by simp
next
  case (Cons x xs)
  have "sorted_wrt (\<lambda>a b. \<not> lt a b) (sift lt x acc)"
    using assms Cons.prems by (intro sorted_sift [of A]) simp_all
  moreover have "set (sift lt x acc) \<subseteq> A" using Cons.prems by (simp add: set_sift)
  ultimately show ?case using Cons.prems by (simp add: Cons.IH)
qed

lemma sorted_insertionSort:
  assumes "strictWeakOrder (set xs) lt"
  shows "sorted_wrt (\<lambda>a b. \<not> lt b a) (insertionSort lt xs)"
proof -
  have "sorted_wrt (\<lambda>a b. \<not> lt a b) (foldl (\<lambda>prefix x. sift lt x prefix) [] xs)"
    using assms by (intro sorted_foldl_sift [of "set xs"]) simp_all
  then show ?thesis by (simp add: insertionSort_def sorted_wrt_rev)
qed

lemma insertionSort_contract: "sortContract insertionSort"
  by (simp add: sortContract_def rearranges_def mset_insertionSort sorted_insertionSort)

subsection \<open>The comparison of FindSchedulerClusters\<close>

lemma lessFunc_scoreOf:
  "Decode L (Scopes c) \<noteq> None \<Longrightarrow> Decode L (Scopes d) \<noteq> None \<Longrightarrow>
   lessFunc L ip hostname conds c d \<longleftrightarrow> scoreOf L ip hostname conds d < scoreOf L ip hostname conds c"
  by (auto simp: lessFunc_def scoreOf_def)

lemma lessFunc_undecodable:
  "Decode L (Scopes c) = None \<Longrightarrow>
   \<not> lessFunc L ip hostname conds c d \<and> \<not> lessFunc L ip hostname conds d c"
  by (simp add: lessFunc_def split: option.splits)

lemma lessFunc_strictWeakOrder:
  assumes "\<forall>c \<in> A. Decode L (Scopes c) \<noteq> None"
  shows "strictWeakOrder A (lessFunc L ip hostname conds)"
  unfolding strictWeakOrder_def using assms by (auto simp: lessFunc_scoreOf)

lemma FindSchedulerClusters_cases:
  "FindSchedulerClusters L schedulerClusters ip hostname conds =
     (if schedulerClusters = [] then Inl EmptySchedulerClusters
      else if FilterSchedulerClusters L conds schedulerClusters = []
      then Inl (ConditionsNotMatch conds)
      else Inr (Slice L (lessFunc L ip hostname conds)
                  (FilterSchedulerClusters L conds schedulerClusters)))"
  by (simp add: FindSchedulerClusters_def Let_def)

subsection \<open>The examples, evaluated\<close>

lemma example_decodes:
  "Decode stdlib (Scopes plainCluster) = Some \<lparr>IDC = [], Location = [], CIDRs = []\<rparr>"
  "Decode stdlib (Scopes defaultCluster) = Some \<lparr>IDC = [], Location = [], CIDRs = []\<rparr>"
  "Decode stdlib (Scopes edgeCluster) = Some \<lparr>IDC = ''x'', Location = [], CIDRs = [''10.0.0.0/24'']\<rparr>"
  "Decode stdlib (Scopes brokenCluster) = None"
  by (simp_all add: stdlib_def decodeScopes_def plainCluster_def defaultCluster_def
      edgeCluster_def brokenCluster_def)

lemma example_scores:
  "Evaluate stdlib ''10.0.0.9'' [] Map.empty \<lparr>IDC = [], Location = [], CIDRs = []\<rparr> plainCluster = 0"
  "Evaluate stdlib ''10.0.0.9'' [] Map.empty \<lparr>IDC = [], Location = [], CIDRs = []\<rparr> defaultCluster
     = 3602879701896397 / 72057594037927936"
  "Evaluate stdlib ''10.0.0.9'' [] [''idc'' \<mapsto> ''x''] \<lparr>IDC = [], Location = [], CIDRs = []\<rparr>
     defaultCluster = 3602879701896397 / 72057594037927936"
  "Evaluate stdlib ''10.0.0.9'' [] [''idc'' \<mapsto> ''x'']
     \<lparr>IDC = ''x'', Location = [], CIDRs = [''10.0.0.0/24'']\<rparr> edgeCluster
     = 2026619832316723 / 4503599627370496"
  by code_simp+

lemma example_scores_idc:
  "Evaluate stdlib ''10.0.0.9'' [] [''idc'' \<mapsto> ''x''] \<lparr>IDC = [], Location = [], CIDRs = []\<rparr>
     plainCluster = 0"
  by code_simp

lemma ranked_by_score:
  assumes "sortContract (Slice L)" and "\<forall>c \<in> set clusters. Decode L (Scopes c) \<noteq> None"
  shows "sorted_wrt (\<lambda>a b. scoreOf L ip hostname conds b \<le> scoreOf L ip hostname conds a)
           (Slice L (lessFunc L ip hostname conds) clusters)"
proof -
  let ?ranked = "Slice L (lessFunc L ip hostname conds) clusters"
  have "strictWeakOrder (set clusters) (lessFunc L ip hostname conds)"
    using assms(2) by (rule lessFunc_strictWeakOrder)
  with assms(1) have s: "sorted_wrt (\<lambda>a b. \<not> lessFunc L ip hostname conds b a) ?ranked"
    by (simp add: sortContract_def)
  have "mset ?ranked = mset clusters"
    using assms(1) by (simp add: sortContract_def rearranges_def)
  then have "set ?ranked = set clusters" by (rule mset_eq_setD)
  with assms(2) have "\<forall>c \<in> set ?ranked. Decode L (Scopes c) \<noteq> None" by simp
  with s show ?thesis
    by (elim sorted_wrt_mono_rel [rotated]) (simp add: lessFunc_scoreOf not_less)
qed

subsection \<open>Claims\<close>

text \<open>
  C1. For every client IP, hostname, condition map, scope and cluster, each of the five
  sub-scores (security domain, CIDR, IDC, location, cluster type) lies between 0.0 and
  1.0, and so does the combined weighted score that \<open>Evaluate\<close> returns, computed in
  float64.
\<close>

theorem scores_in_unit_interval:
  "calculateSecurityDomainAffinityScore securityDomain securityRules \<in> {0..1} \<and>
   calculateCIDRAffinityScore L ip cidrs \<in> {0..1} \<and>
   calculateIDCAffinityScore L idc scopeIDC \<in> {0..1} \<and>
   calculateMultiElementAffinityScore L location scopeLocation \<in> {0..1} \<and>
   calculateClusterTypeScore cluster \<in> {0..1} \<and>
   Evaluate L ip hostname conds scopes cluster \<in> {0..1}"
  by (simp add: securityDomain_score_cases cidr_score_cases idc_score_cases
      clusterType_score_cases location_score_bounds Evaluate_bounds)

text \<open>
  C5. The location sub-score is 0.0 if the client's or the cluster's location is empty,
  1.0 if the two strings are equal under case folding, and otherwise the length of the
  run of matching segment pairs from index 0, over the first
  \<open>min (len client segments, len cluster segments, 5)\<close> pairs of segments separated by
  \<open>|\<close>, divided by 5.0. Client \<open>r1|z1|rack1\<close> against cluster \<open>r1|z1|rack2\<close> scores
  2/5, the float64 0.4.
\<close>

theorem location_score:
  "calculateMultiElementAffinityScore L client cluster =
     (if client = [] \<or> cluster = [] then 0
      else if EqualFold L client cluster then 1
      else fdiv (of_nat (matchedPrefixLength L client cluster)) 5) \<and>
   calculateMultiElementAffinityScore stdlib ''r1|z1|rack1'' ''r1|z1|rack2'' = fdiv 2 5 \<and>
   fdiv 2 5 = f64_round (4 / 10)"
proof (intro conjI)
  show "calculateMultiElementAffinityScore L client cluster =
     (if client = [] \<or> cluster = [] then 0
      else if EqualFold L client cluster then 1
      else fdiv (of_nat (matchedPrefixLength L client cluster)) 5)"
    by (rule location_score_cases)
  have "\<not> EqualFold stdlib ''r1|z1|rack1'' ''r1|z1|rack2''"
    by (simp add: stdlib_def asciiEqualFold_def toLower_def)
  moreover have "matchedPrefixLength stdlib ''r1|z1|rack1'' ''r1|z1|rack2'' = 2"
    by (simp add: matchedPrefixLength_def Split_def stdlib_def asciiEqualFold_def toLower_def)
  ultimately show "calculateMultiElementAffinityScore stdlib ''r1|z1|rack1'' ''r1|z1|rack2'' = fdiv 2 5"
    by (simp add: location_score_cases)
  show "fdiv 2 5 = f64_round (4 / 10)" by code_simp
qed

theorem location_score_witness:
  "calculateMultiElementAffinityScore stdlib ''R1|Z1|rack1|x'' ''r1|z1|rack2|x'' = fdiv 2 5 \<and>
   calculateMultiElementAffinityScore stdlib ''r1|z1'' ''R1|Z1'' = 1 \<and>
   calculateMultiElementAffinityScore stdlib '''' ''r1|z1'' = 0"
proof -
  have "\<not> EqualFold stdlib ''R1|Z1|rack1|x'' ''r1|z1|rack2|x''"
    by (simp add: stdlib_def asciiEqualFold_def toLower_def)
  moreover have "matchedPrefixLength stdlib ''R1|Z1|rack1|x'' ''r1|z1|rack2|x'' = 2"
    by (simp add: matchedPrefixLength_def Split_def stdlib_def asciiEqualFold_def toLower_def)
  moreover have "EqualFold stdlib ''r1|z1'' ''R1|Z1''"
    by (simp add: stdlib_def asciiEqualFold_def toLower_def)
  ultimately show ?thesis
    using location_score [of stdlib "''R1|Z1|rack1|x''" "''r1|z1|rack2|x''"]
      location_score [of stdlib "''r1|z1''" "''R1|Z1''"]
      location_score [of stdlib "''''" "''r1|z1''"]
    by simp
qed

text \<open>
  C6. The IDC sub-score is 0.0 if the client's or the cluster's idc is empty; otherwise
  it is 1.0 if the client's idc equals, under case folding, the cluster's whole idc
  string or one of its alternatives separated by \<open>|\<close>, and 0.0 if not. Client \<open>x\<close>
  against cluster \<open>x|y|z\<close> scores 1.0, client \<open>w\<close> scores 0.0.
\<close>

theorem idc_score:
  "calculateIDCAffinityScore L client cluster =
     (if client = [] \<or> cluster = [] then 0
      else if EqualFold L client cluster \<or>
              (\<exists>alternative \<in> set (Split cluster ''|''). EqualFold L client alternative)
      then 1 else 0) \<and>
   calculateIDCAffinityScore stdlib ''x'' ''x|y|z'' = 1 \<and>
   calculateIDCAffinityScore stdlib ''w'' ''x|y|z'' = 0"
  by (simp add: idc_score_cases)
     (simp add: Split_def stdlib_def asciiEqualFold_def toLower_def)

theorem idc_score_witness:
  "calculateIDCAffinityScore stdlib ''Y'' ''x|y|z'' = 1 \<and>
   calculateIDCAffinityScore stdlib ''x|Y|z'' ''X|y|Z'' = 1 \<and>
   calculateIDCAffinityScore stdlib ''y'' '''' = 0"
  using idc_score [of stdlib "''Y''" "''x|y|z''"] idc_score [of stdlib "''x|Y|z''" "''X|y|Z''"]
    idc_score [of stdlib "''y''" "''''"]
  by (simp add: Split_def stdlib_def asciiEqualFold_def toLower_def)

text \<open>
  C7. The security-domain sub-score is 1.0 if and only if the client's security_domain
  is not empty and the cluster has at least one security rule, and 0.0 otherwise. It
  depends on the presence of the two only: any two inputs that agree on which of them is
  empty score the same, whatever the domains are.
\<close>

theorem securityDomain_score:
  "calculateSecurityDomainAffinityScore securityDomain securityRules =
     (if securityDomain \<noteq> [] \<and> securityRules \<noteq> [] then 1 else 0) \<and>
   ((securityDomain = [] \<longleftrightarrow> securityDomain' = []) \<longrightarrow>
    (securityRules = [] \<longleftrightarrow> securityRules' = []) \<longrightarrow>
    calculateSecurityDomainAffinityScore securityDomain securityRules =
    calculateSecurityDomainAffinityScore securityDomain' securityRules')"
  by (simp add: securityDomain_score_cases)

theorem securityDomain_score_witness:
  "calculateSecurityDomainAffinityScore ''a'' [\<lparr>RuleDomain = ''a''\<rparr>] = 1 \<and>
   calculateSecurityDomainAffinityScore ''b'' [\<lparr>RuleDomain = ''a''\<rparr>] = 1 \<and>
   calculateSecurityDomainAffinityScore '''' [\<lparr>RuleDomain = ''a''\<rparr>] = 0 \<and>
   calculateSecurityDomainAffinityScore ''a'' [] = 0"
  using securityDomain_score [of "''a''" "[\<lparr>RuleDomain = ''a''\<rparr>]" "''b''" "[\<lparr>RuleDomain = ''a''\<rparr>]"]
    securityDomain_score [of "''''" "[\<lparr>RuleDomain = ''a''\<rparr>]"]
    securityDomain_score [of "''a''" "[]"]
  by simp

text \<open>
  C8. The CIDR sub-score is 1.0 or 0.0 and never an error. It is 1.0 only if the client IP
  is an address that one of the parseable entries of the scope's CIDRs covers, and, when
  the ranger refuses none of the parsed networks, exactly then. An entry that does not
  parse, or whose insertion into the ranger fails, is skipped and changes nothing for
  the other entries; a client IP that is no address scores 0.0, and so does a list of
  which no entry reaches the ranger. With CIDRs \<open>10.0.0.0/24\<close> the IP \<open>10.0.0.5\<close> scores
  1.0 and \<open>10.0.1.5\<close> scores 0.0.
\<close>

theorem cidr_score:
  "(calculateCIDRAffinityScore L ip cidrs = 1 \<or> calculateCIDRAffinityScore L ip cidrs = 0) \<and>
   (calculateCIDRAffinityScore L ip cidrs = 1 \<longrightarrow>
      (\<exists>a. ParseIP L ip = Some a \<and>
         (\<exists>cidr \<in> set cidrs. \<exists>network. ParseCIDR L cidr = Some network \<and> covers network a))) \<and>
   (insertsAll L cidrs \<longrightarrow>
      calculateCIDRAffinityScore L ip cidrs =
        (if \<exists>a. ParseIP L ip = Some a \<and>
              (\<exists>cidr \<in> set cidrs. \<exists>network. ParseCIDR L cidr = Some network \<and> covers network a)
         then 1 else 0)) \<and>
   (ParseCIDR L bad = None \<longrightarrow>
      calculateCIDRAffinityScore L ip (cidrs @ bad # cidrs') =
      calculateCIDRAffinityScore L ip (cidrs @ cidrs')) \<and>
   (ParseCIDR L bad = Some refused \<and>
    InsertError L (insertCIDRs L NewPCTrieRanger cidrs) refused = Some err \<longrightarrow>
      calculateCIDRAffinityScore L ip (cidrs @ bad # cidrs') =
      calculateCIDRAffinityScore L ip (cidrs @ cidrs')) \<and>
   (ParseIP L ip = None \<longrightarrow> calculateCIDRAffinityScore L ip cidrs = 0) \<and>
   (insertCIDRs L NewPCTrieRanger cidrs = [] \<longrightarrow> calculateCIDRAffinityScore L ip cidrs = 0) \<and>
   calculateCIDRAffinityScore stdlib ''10.0.0.5'' [''10.0.0.0/24''] = 1 \<and>
   calculateCIDRAffinityScore stdlib ''10.0.1.5'' [''10.0.0.0/24''] = 0"
proof (intro conjI impI)
  show "calculateCIDRAffinityScore L ip cidrs = 1 \<or> calculateCIDRAffinityScore L ip cidrs = 0"
    by (simp add: cidr_score_cases)
  show "\<exists>a. ParseIP L ip = Some a \<and>
         (\<exists>cidr \<in> set cidrs. \<exists>network. ParseCIDR L cidr = Some network \<and> covers network a)"
    if "calculateCIDRAffinityScore L ip cidrs = 1"
  proof -
    from that obtain a network where a: "ParseIP L ip = Some a"
      and n: "network \<in> set (insertCIDRs L NewPCTrieRanger cidrs)" "covers network a"
      by (auto simp: cidr_score_cases split: if_splits)
    from n(1) insertCIDRs_parsed [of L NewPCTrieRanger cidrs]
    obtain cidr where "cidr \<in> set cidrs" "ParseCIDR L cidr = Some network"
      by (auto simp: NewPCTrieRanger_def)
    with a n(2) show ?thesis by blast
  qed
  show "calculateCIDRAffinityScore L ip cidrs =
        (if \<exists>a. ParseIP L ip = Some a \<and>
              (\<exists>cidr \<in> set cidrs. \<exists>network. ParseCIDR L cidr = Some network \<and> covers network a)
         then 1 else 0)" if "insertsAll L cidrs"
    by (auto simp: cidr_score_cases set_insertCIDRs [OF that] NewPCTrieRanger_def)
  show "calculateCIDRAffinityScore L ip (cidrs @ bad # cidrs') =
      calculateCIDRAffinityScore L ip (cidrs @ cidrs')" if "ParseCIDR L bad = None"
    using that by (simp add: cidr_score_cases insertCIDRs_append)
  show "calculateCIDRAffinityScore L ip (cidrs @ bad # cidrs') =
      calculateCIDRAffinityScore L ip (cidrs @ cidrs')"
    if "ParseCIDR L bad = Some refused \<and>
        InsertError L (insertCIDRs L NewPCTrieRanger cidrs) refused = Some err"
    using that by (simp add: cidr_score_cases insertCIDRs_append Insert_def)
  show "calculateCIDRAffinityScore L ip cidrs = 0" if "ParseIP L ip = None"
    using that by (simp add: cidr_score_cases)
  show "calculateCIDRAffinityScore L ip cidrs = 0" if "insertCIDRs L NewPCTrieRanger cidrs = []"
    using that by (simp add: cidr_score_cases)
  show "calculateCIDRAffinityScore stdlib ''10.0.0.5'' [''10.0.0.0/24''] = 1" by code_simp
  show "calculateCIDRAffinityScore stdlib ''10.0.1.5'' [''10.0.0.0/24''] = 0" by code_simp
qed

theorem cidr_score_witness:
  "insertsAll stdlib [''10.0.0.0/33'', ''10.0.0.0/24''] \<and>
   ParseCIDR stdlib ''10.0.0.0/33'' = None \<and>
   calculateCIDRAffinityScore stdlib ''10.0.0.5'' [''10.0.0.0/33'', ''10.0.0.0/24''] = 1 \<and>
   calculateCIDRAffinityScore stdlib ''10.0.1.5'' [''10.0.0.0/33'', ''10.0.0.0/24''] = 0 \<and>
   ParseCIDR refusingZero ''0.0.0.0/0'' = Some \<lparr>IP = IPv4 0, Mask = 0\<rparr> \<and>
   covers \<lparr>IP = IPv4 0, Mask = 0\<rparr> (IPv4 167772421) \<and>
   ParseIP refusingZero ''10.0.1.5'' = Some (IPv4 167772421) \<and>
   InsertError refusingZero (insertCIDRs refusingZero NewPCTrieRanger [''10.0.0.0/24''])
     \<lparr>IP = IPv4 0, Mask = 0\<rparr> = Some ErrInvalidNetworkInput \<and>
   calculateCIDRAffinityScore refusingZero ''10.0.0.5'' [''10.0.0.0/24'', ''0.0.0.0/0''] = 1 \<and>
   calculateCIDRAffinityScore refusingZero ''10.0.1.5'' [''10.0.0.0/24'', ''0.0.0.0/0''] = 0 \<and>
   calculateCIDRAffinityScore refusingZero ''10.0.1.5'' [''0.0.0.0/0''] = 0 \<and>
   calculateCIDRAffinityScore stdlib ''10.0.0'' [''10.0.0.0/24''] = 0"
proof -
  have all: "insertsAll stdlib [''10.0.0.0/33'', ''10.0.0.0/24'']"
    by (simp add: insertsAll_def stdlib_def)
  have bad: "ParseCIDR stdlib ''10.0.0.0/33'' = None" by code_simp
  have zero: "ParseCIDR refusingZero ''0.0.0.0/0'' = Some \<lparr>IP = IPv4 0, Mask = 0\<rparr>" by code_simp
  have cov: "covers \<lparr>IP = IPv4 0, Mask = 0\<rparr> (IPv4 167772421)" by (simp add: covers_def)
  have ip: "ParseIP refusingZero ''10.0.1.5'' = Some (IPv4 167772421)" by code_simp
  have noip: "ParseIP stdlib ''10.0.0'' = None" by code_simp
  have refused: "InsertError refusingZero (insertCIDRs refusingZero NewPCTrieRanger [''10.0.0.0/24''])
     \<lparr>IP = IPv4 0, Mask = 0\<rparr> = Some ErrInvalidNetworkInput"
    by (simp add: refusingZero_def)
  have refused0: "InsertError refusingZero (insertCIDRs refusingZero NewPCTrieRanger [])
     \<lparr>IP = IPv4 0, Mask = 0\<rparr> = Some ErrInvalidNetworkInput"
    by (simp add: refusingZero_def)
  have one: "calculateCIDRAffinityScore refusingZero ''10.0.0.5'' [''10.0.0.0/24''] = 1" by code_simp
  have none: "calculateCIDRAffinityScore refusingZero ''10.0.1.5'' [''10.0.0.0/24''] = 0" by code_simp
  let ?zero = "\<lparr>IP = IPv4 0, Mask = 0\<rparr>"
  have s1: "calculateCIDRAffinityScore stdlib ''10.0.0.5'' [''10.0.0.0/33'', ''10.0.0.0/24''] = 1"
    using cidr_score [of stdlib "''10.0.0.5''" "[]" "''10.0.0.0/33''" "[''10.0.0.0/24'']"] bad
    by simp
  have s2: "calculateCIDRAffinityScore stdlib ''10.0.1.5'' [''10.0.0.0/33'', ''10.0.0.0/24''] = 0"
    using cidr_score [of stdlib "''10.0.1.5''" "[]" "''10.0.0.0/33''" "[''10.0.0.0/24'']"] bad
    by simp
  have s3: "\<exists>a. ParseIP stdlib ''10.0.0.5'' = Some a \<and>
      (\<exists>cidr \<in> set [''10.0.0.0/33'', ''10.0.0.0/24'']. \<exists>network.
         ParseCIDR stdlib cidr = Some network \<and> covers network a)"
    using cidr_score [of stdlib "''10.0.0.5''" "[''10.0.0.0/33'', ''10.0.0.0/24'']"] all s1
    by (simp split: if_splits)
  have r1: "calculateCIDRAffinityScore refusingZero ''10.0.0.5'' [''10.0.0.0/24'', ''0.0.0.0/0''] = 1"
    using cidr_score [of refusingZero "''10.0.0.5''" "[''10.0.0.0/24'']" "''0.0.0.0/0''" "[]"
        ?zero ErrInvalidNetworkInput] zero refused one
    by simp
  have r2: "calculateCIDRAffinityScore refusingZero ''10.0.1.5'' [''10.0.0.0/24'', ''0.0.0.0/0''] = 0"
    using cidr_score [of refusingZero "''10.0.1.5''" "[''10.0.0.0/24'']" "''0.0.0.0/0''" "[]"
        ?zero ErrInvalidNetworkInput] zero refused none
    by simp
  have r3: "calculateCIDRAffinityScore refusingZero ''10.0.1.5'' [''0.0.0.0/0''] = 0"
    using cidr_score [of refusingZero "''10.0.1.5''" "[]" "''0.0.0.0/0''" "[]"
        ?zero ErrInvalidNetworkInput] zero refused0
    by (simp add: NewPCTrieRanger_def)
  have n1: "calculateCIDRAffinityScore stdlib ''10.0.0'' [''10.0.0.0/24''] = 0"
    using cidr_score [of stdlib "''10.0.0''" "[''10.0.0.0/24'']"] noip by simp
  from all bad zero cov ip refused s1 s2 r1 r2 r3 n1 show ?thesis by simp
qed

text \<open>
  C2. With a security_domain declared, a cluster that is not the default, has an active
  scheduler and has security rules passes the filter if and only if the domain of one of
  its rules equals the declared domain under case folding, and it appears at most once
  in the output. The code appends the cluster once for every rule that matches: a
  cluster with the rules \<open>A\<close> and \<open>a\<close> is returned twice to a client that declares \<open>a\<close>.
\<close>

theorem FilterSchedulerClusters_repeats_cluster:
  "FilterSchedulerClusters stdlib [''security_domain'' \<mapsto> ''a''] [guardedCluster] =
     [guardedCluster, guardedCluster]"
  by (simp add: FilterSchedulerClusters_def index_def ConditionSecurityDomain_def
      guardedCluster_def stdlib_def asciiEqualFold_def toLower_def)

text \<open>
  C3. For a non-empty candidate list whose filter result is not empty,
  \<open>FindSchedulerClusters\<close> returns a rearrangement of the filter result, and the
  comparison is false in both directions whenever the scopes of one of the two clusters
  do not decode, so that such a cluster stays in the output. The result is in order of
  non-increasing score when the scopes of every filtered cluster decode. It need not be
  when some do not: the comparison is then no strict weak order, and two clusters whose
  scopes decode can come out in the wrong order.
\<close>

theorem FindSchedulerClusters_ranking:
  assumes "sortContract (Slice L)" and "schedulerClusters \<noteq> []"
    and "FilterSchedulerClusters L conds schedulerClusters \<noteq> []"
  shows "\<exists>ranked. FindSchedulerClusters L schedulerClusters ip hostname conds = Inr ranked \<and>
     mset ranked = mset (FilterSchedulerClusters L conds schedulerClusters) \<and>
     ((\<forall>c \<in> set (FilterSchedulerClusters L conds schedulerClusters). Decode L (Scopes c) \<noteq> None)
        \<longrightarrow> sorted_wrt (\<lambda>a b. scoreOf L ip hostname conds b \<le> scoreOf L ip hostname conds a) ranked) \<and>
     (\<forall>c d. Decode L (Scopes c) = None \<longrightarrow>
        \<not> lessFunc L ip hostname conds c d \<and> \<not> lessFunc L ip hostname conds d c)"
proof -
  define filtered where "filtered = FilterSchedulerClusters L conds schedulerClusters"
  define ranked where "ranked = Slice L (lessFunc L ip hostname conds) filtered"
  have find: "FindSchedulerClusters L schedulerClusters ip hostname conds = Inr ranked"
    using assms(2,3) by (simp add: FindSchedulerClusters_cases ranked_def filtered_def)
  have perm: "mset ranked = mset filtered"
    using assms(1) by (simp add: sortContract_def rearranges_def ranked_def)
  have ordered: "sorted_wrt (\<lambda>a b. scoreOf L ip hostname conds b \<le> scoreOf L ip hostname conds a) ranked"
    if dec: "\<forall>c \<in> set filtered. Decode L (Scopes c) \<noteq> None"
  proof -
    have "strictWeakOrder (set filtered) (lessFunc L ip hostname conds)"
      using dec by (rule lessFunc_strictWeakOrder)
    with assms(1) have s: "sorted_wrt (\<lambda>a b. \<not> lessFunc L ip hostname conds b a) ranked"
      by (simp add: sortContract_def ranked_def)
    have "set ranked = set filtered" using perm by (rule mset_eq_setD)
    with dec have "\<forall>c \<in> set ranked. Decode L (Scopes c) \<noteq> None" by simp
    with s show ?thesis
      by (elim sorted_wrt_mono_rel [rotated]) (simp add: lessFunc_scoreOf not_less)
  qed
  show ?thesis
    using find perm ordered lessFunc_undecodable unfolding filtered_def by blast
qed

theorem FindSchedulerClusters_ranking_witness:
  "sortContract (Slice stdlib) \<and>
   FindSchedulerClusters stdlib [defaultCluster, edgeCluster] ''10.0.0.9'' [] [''idc'' \<mapsto> ''x'']
     = Inr [edgeCluster, defaultCluster] \<and>
   sorted_wrt (\<lambda>a b. scoreOf stdlib ''10.0.0.9'' [] [''idc'' \<mapsto> ''x''] b
                  \<le> scoreOf stdlib ''10.0.0.9'' [] [''idc'' \<mapsto> ''x''] a)
     [edgeCluster, defaultCluster] \<and>
   scoreOf stdlib ''10.0.0.9'' [] [''idc'' \<mapsto> ''x''] defaultCluster
     < scoreOf stdlib ''10.0.0.9'' [] [''idc'' \<mapsto> ''x''] edgeCluster"
proof -
  let ?conds = "[''idc'' \<mapsto> ''x'']"
  have c: "sortContract (Slice stdlib)" by (simp add: stdlib_def insertionSort_contract)
  have f: "FilterSchedulerClusters stdlib ?conds [defaultCluster, edgeCluster]
      = [defaultCluster, edgeCluster]"
    by (simp add: FilterSchedulerClusters_def index_def ConditionSecurityDomain_def
        defaultCluster_def edgeCluster_def)
  have sc: "scoreOf stdlib ''10.0.0.9'' [] ?conds defaultCluster = 3602879701896397 / 72057594037927936"
    "scoreOf stdlib ''10.0.0.9'' [] ?conds edgeCluster = 2026619832316723 / 4503599627370496"
    by (simp_all add: scoreOf_def example_decodes example_scores)
  have lt: "lessFunc stdlib ''10.0.0.9'' [] ?conds edgeCluster defaultCluster"
    by (simp add: lessFunc_scoreOf example_decodes sc)
  have s: "Slice stdlib (lessFunc stdlib ''10.0.0.9'' [] ?conds) [defaultCluster, edgeCluster]
      = [edgeCluster, defaultCluster]"
    by (simp add: stdlib_def insertionSort_def lt [unfolded stdlib_def])
  have find: "FindSchedulerClusters stdlib [defaultCluster, edgeCluster] ''10.0.0.9'' [] ?conds
     = Inr [edgeCluster, defaultCluster]"
    by (simp add: FindSchedulerClusters_cases f s)
  have d: "\<forall>c \<in> set (FilterSchedulerClusters stdlib ?conds [defaultCluster, edgeCluster]).
      Decode stdlib (Scopes c) \<noteq> None"
    by (simp add: f example_decodes)
  from FindSchedulerClusters_ranking [OF c, of "[defaultCluster, edgeCluster]" ?conds "''10.0.0.9''" "[]"]
  obtain ranked where
    "FindSchedulerClusters stdlib [defaultCluster, edgeCluster] ''10.0.0.9'' [] ?conds = Inr ranked"
    "(\<forall>c \<in> set (FilterSchedulerClusters stdlib ?conds [defaultCluster, edgeCluster]).
        Decode stdlib (Scopes c) \<noteq> None) \<longrightarrow>
     sorted_wrt (\<lambda>a b. scoreOf stdlib ''10.0.0.9'' [] ?conds b
                  \<le> scoreOf stdlib ''10.0.0.9'' [] ?conds a) ranked"
    by (auto simp: f)
  with find d have "sorted_wrt (\<lambda>a b. scoreOf stdlib ''10.0.0.9'' [] ?conds b
                  \<le> scoreOf stdlib ''10.0.0.9'' [] ?conds a) [edgeCluster, defaultCluster]"
    by simp
  with c find show ?thesis by (simp add: sc)
qed

theorem FindSchedulerClusters_ranking_counterexample:
  "FindSchedulerClusters stdlib [plainCluster, brokenCluster, defaultCluster] ''10.0.0.9'' [] Map.empty
     = Inr [plainCluster, brokenCluster, defaultCluster] \<and>
   Decode stdlib (Scopes plainCluster) = Some \<lparr>IDC = [], Location = [], CIDRs = []\<rparr> \<and>
   Decode stdlib (Scopes defaultCluster) = Some \<lparr>IDC = [], Location = [], CIDRs = []\<rparr> \<and>
   Decode stdlib (Scopes brokenCluster) = None \<and>
   Evaluate stdlib ''10.0.0.9'' [] Map.empty \<lparr>IDC = [], Location = [], CIDRs = []\<rparr> plainCluster
     < Evaluate stdlib ''10.0.0.9'' [] Map.empty \<lparr>IDC = [], Location = [], CIDRs = []\<rparr> defaultCluster"
proof -
  have f: "FilterSchedulerClusters stdlib Map.empty [plainCluster, brokenCluster, defaultCluster]
      = [plainCluster, brokenCluster, defaultCluster]"
    by (simp add: FilterSchedulerClusters_def index_def plainCluster_def brokenCluster_def
        defaultCluster_def)
  have lt: "\<not> lessFunc stdlib ''10.0.0.9'' [] Map.empty brokenCluster plainCluster"
    "\<not> lessFunc stdlib ''10.0.0.9'' [] Map.empty defaultCluster brokenCluster"
    by (simp_all add: lessFunc_def example_decodes)
  have s: "Slice stdlib (lessFunc stdlib ''10.0.0.9'' [] Map.empty)
      [plainCluster, brokenCluster, defaultCluster] = [plainCluster, brokenCluster, defaultCluster]"
    by (simp add: stdlib_def insertionSort_def lt [unfolded stdlib_def])
  show ?thesis
    by (simp add: FindSchedulerClusters_cases f s example_decodes example_scores)
qed

text \<open>
  C4. \<open>FindSchedulerClusters\<close> fails with the empty-input error exactly when the list of
  candidates is empty, and with the no-match error, which carries the condition map,
  exactly when the list is not empty and the filter leaves nothing; it returns no other
  error. In every other case it returns no error and the filter result as
  \<open>sort.Slice\<close> leaves it: a rearrangement of it, in order of non-increasing score when
  the scopes of every filtered cluster decode. When some do not, the list returned need
  not be in order.
\<close>

theorem FindSchedulerClusters_errors:
  "(FindSchedulerClusters L schedulerClusters ip hostname conds = Inl EmptySchedulerClusters
      \<longleftrightarrow> schedulerClusters = []) \<and>
   (FindSchedulerClusters L schedulerClusters ip hostname conds = Inl (ConditionsNotMatch conds)
      \<longleftrightarrow> schedulerClusters \<noteq> [] \<and> FilterSchedulerClusters L conds schedulerClusters = []) \<and>
   (\<forall>e. FindSchedulerClusters L schedulerClusters ip hostname conds = Inl e \<longrightarrow>
      e = EmptySchedulerClusters \<or> e = ConditionsNotMatch conds) \<and>
   (schedulerClusters \<noteq> [] \<and> FilterSchedulerClusters L conds schedulerClusters \<noteq> [] \<longrightarrow>
      (\<exists>ranked.
         FindSchedulerClusters L schedulerClusters ip hostname conds = Inr ranked \<and>
         ranked = Slice L (lessFunc L ip hostname conds)
                    (FilterSchedulerClusters L conds schedulerClusters) \<and>
         (sortContract (Slice L) \<longrightarrow>
            mset ranked = mset (FilterSchedulerClusters L conds schedulerClusters) \<and>
            ((\<forall>c \<in> set (FilterSchedulerClusters L conds schedulerClusters).
                Decode L (Scopes c) \<noteq> None) \<longrightarrow>
             sorted_wrt (\<lambda>a b. scoreOf L ip hostname conds b \<le> scoreOf L ip hostname conds a)
               ranked))))"
proof (intro conjI)
  show "FindSchedulerClusters L schedulerClusters ip hostname conds = Inl EmptySchedulerClusters
      \<longleftrightarrow> schedulerClusters = []"
    by (simp add: FindSchedulerClusters_cases)
  show "FindSchedulerClusters L schedulerClusters ip hostname conds = Inl (ConditionsNotMatch conds)
      \<longleftrightarrow> schedulerClusters \<noteq> [] \<and> FilterSchedulerClusters L conds schedulerClusters = []"
    by (simp add: FindSchedulerClusters_cases)
  show "\<forall>e. FindSchedulerClusters L schedulerClusters ip hostname conds = Inl e \<longrightarrow>
      e = EmptySchedulerClusters \<or> e = ConditionsNotMatch conds"
    by (auto simp: FindSchedulerClusters_cases split: if_splits)
  show "schedulerClusters \<noteq> [] \<and> FilterSchedulerClusters L conds schedulerClusters \<noteq> [] \<longrightarrow>
      (\<exists>ranked.
         FindSchedulerClusters L schedulerClusters ip hostname conds = Inr ranked \<and>
         ranked = Slice L (lessFunc L ip hostname conds)
                    (FilterSchedulerClusters L conds schedulerClusters) \<and>
         (sortContract (Slice L) \<longrightarrow>
            mset ranked = mset (FilterSchedulerClusters L conds schedulerClusters) \<and>
            ((\<forall>c \<in> set (FilterSchedulerClusters L conds schedulerClusters).
                Decode L (Scopes c) \<noteq> None) \<longrightarrow>
             sorted_wrt (\<lambda>a b. scoreOf L ip hostname conds b \<le> scoreOf L ip hostname conds a)
               ranked)))"
    using ranked_by_score [of L "FilterSchedulerClusters L conds schedulerClusters" ip hostname conds]
    by (simp add: FindSchedulerClusters_cases sortContract_def rearranges_def)
qed

theorem FindSchedulerClusters_errors_witness:
  "FindSchedulerClusters stdlib [] ''10.0.0.9'' [] Map.empty = Inl EmptySchedulerClusters \<and>
   FindSchedulerClusters stdlib [idleCluster] ''10.0.0.9'' [] Map.empty
     = Inl (ConditionsNotMatch Map.empty) \<and>
   sortContract (Slice stdlib) \<and>
   FilterSchedulerClusters stdlib [''idc'' \<mapsto> ''x''] [idleCluster, defaultCluster, edgeCluster]
     = [defaultCluster, edgeCluster] \<and>
   Decode stdlib (Scopes defaultCluster) \<noteq> None \<and> Decode stdlib (Scopes edgeCluster) \<noteq> None \<and>
   FindSchedulerClusters stdlib [idleCluster, defaultCluster, edgeCluster] ''10.0.0.9'' []
       [''idc'' \<mapsto> ''x'']
     = Inr [edgeCluster, defaultCluster] \<and>
   sorted_wrt (\<lambda>a b. scoreOf stdlib ''10.0.0.9'' [] [''idc'' \<mapsto> ''x''] b
                  \<le> scoreOf stdlib ''10.0.0.9'' [] [''idc'' \<mapsto> ''x''] a)
     [edgeCluster, defaultCluster]"
proof -
  let ?conds = "[''idc'' \<mapsto> ''x'']"
  let ?candidates = "[idleCluster, defaultCluster, edgeCluster]"
  have c: "sortContract (Slice stdlib)" by (simp add: stdlib_def insertionSort_contract)
  have f1: "FilterSchedulerClusters stdlib Map.empty [idleCluster] = []"
    by (simp add: FilterSchedulerClusters_def idleCluster_def)
  have f2: "FilterSchedulerClusters stdlib ?conds ?candidates = [defaultCluster, edgeCluster]"
    by (simp add: FilterSchedulerClusters_def index_def ConditionSecurityDomain_def
        idleCluster_def defaultCluster_def edgeCluster_def)
  have d: "Decode stdlib (Scopes defaultCluster) \<noteq> None" "Decode stdlib (Scopes edgeCluster) \<noteq> None"
    by (simp_all add: example_decodes)
  have sc: "scoreOf stdlib ''10.0.0.9'' [] ?conds defaultCluster = 3602879701896397 / 72057594037927936"
    "scoreOf stdlib ''10.0.0.9'' [] ?conds edgeCluster = 2026619832316723 / 4503599627370496"
    by (simp_all add: scoreOf_def example_decodes example_scores)
  have lt: "lessFunc stdlib ''10.0.0.9'' [] ?conds edgeCluster defaultCluster"
    by (simp add: lessFunc_scoreOf example_decodes sc)
  have s: "Slice stdlib (lessFunc stdlib ''10.0.0.9'' [] ?conds) [defaultCluster, edgeCluster]
      = [edgeCluster, defaultCluster]"
    by (simp add: stdlib_def insertionSort_def lt [unfolded stdlib_def])
  have e1: "FindSchedulerClusters stdlib [] ''10.0.0.9'' [] Map.empty = Inl EmptySchedulerClusters"
    using FindSchedulerClusters_errors [of stdlib "[]" "''10.0.0.9''" "[]" Map.empty] by simp
  have e2: "FindSchedulerClusters stdlib [idleCluster] ''10.0.0.9'' [] Map.empty
     = Inl (ConditionsNotMatch Map.empty)"
    using FindSchedulerClusters_errors [of stdlib "[idleCluster]" "''10.0.0.9''" "[]" Map.empty] f1
    by simp
  have e3: "FindSchedulerClusters stdlib ?candidates ''10.0.0.9'' [] ?conds
       = Inr [edgeCluster, defaultCluster] \<and>
     sorted_wrt (\<lambda>a b. scoreOf stdlib ''10.0.0.9'' [] ?conds b
                  \<le> scoreOf stdlib ''10.0.0.9'' [] ?conds a) [edgeCluster, defaultCluster]"
    using FindSchedulerClusters_errors [of stdlib ?candidates "''10.0.0.9''" "[]" ?conds] c d
    by (simp add: f2 s)
  from e1 e2 e3 c f2 d show ?thesis by simp
qed

theorem FindSchedulerClusters_errors_counterexample:
  "FindSchedulerClusters stdlib [plainCluster, brokenCluster, edgeCluster] ''10.0.0.9'' []
       [''idc'' \<mapsto> ''x'']
     = Inr [plainCluster, brokenCluster, edgeCluster] \<and>
   Decode stdlib (Scopes plainCluster) = Some \<lparr>IDC = [], Location = [], CIDRs = []\<rparr> \<and>
   Decode stdlib (Scopes edgeCluster)
     = Some \<lparr>IDC = ''x'', Location = [], CIDRs = [''10.0.0.0/24'']\<rparr> \<and>
   Decode stdlib (Scopes brokenCluster) = None \<and>
   Evaluate stdlib ''10.0.0.9'' [] [''idc'' \<mapsto> ''x''] \<lparr>IDC = [], Location = [], CIDRs = []\<rparr>
       plainCluster
     < Evaluate stdlib ''10.0.0.9'' [] [''idc'' \<mapsto> ''x'']
         \<lparr>IDC = ''x'', Location = [], CIDRs = [''10.0.0.0/24'']\<rparr> edgeCluster"
proof -
  let ?conds = "[''idc'' \<mapsto> ''x'']"
  have f: "FilterSchedulerClusters stdlib ?conds [plainCluster, brokenCluster, edgeCluster]
      = [plainCluster, brokenCluster, edgeCluster]"
    by (simp add: FilterSchedulerClusters_def index_def ConditionSecurityDomain_def
        plainCluster_def brokenCluster_def edgeCluster_def)
  have lt: "\<not> lessFunc stdlib ''10.0.0.9'' [] ?conds brokenCluster plainCluster"
    "\<not> lessFunc stdlib ''10.0.0.9'' [] ?conds edgeCluster brokenCluster"
    by (simp_all add: lessFunc_def example_decodes)
  have s: "Slice stdlib (lessFunc stdlib ''10.0.0.9'' [] ?conds)
      [plainCluster, brokenCluster, edgeCluster] = [plainCluster, brokenCluster, edgeCluster]"
    by (simp add: stdlib_def insertionSort_def lt [unfolded stdlib_def])
  show ?thesis
    by (simp add: FindSchedulerClusters_cases f s example_decodes example_scores
        example_scores_idc)
qed

text \<open>
  C9. A cluster without an active scheduler is never in the output of the filter,
  whatever the conditions and the other candidates are, and hence never in the result of
  \<open>FindSchedulerClusters\<close>, which rearranges the filter's output.
\<close>

theorem idle_cluster_never_returned:
  "Schedulers c = [] \<Longrightarrow>
   c \<notin> set (FilterSchedulerClusters L conds schedulerClusters) \<and>
   (rearranges (Slice L) \<longrightarrow>
      (\<forall>ranked. FindSchedulerClusters L schedulerClusters ip hostname conds = Inr ranked \<longrightarrow>
         c \<notin> set ranked))"
proof (intro conjI impI allI)
  assume idle: "Schedulers c = []"
  then show no: "c \<notin> set (FilterSchedulerClusters L conds schedulerClusters)"
    by (simp add: set_FilterSchedulerClusters eligible_def)
  fix ranked
  assume r: "rearranges (Slice L)"
    and "FindSchedulerClusters L schedulerClusters ip hostname conds = Inr ranked"
  then have "ranked = Slice L (lessFunc L ip hostname conds)
      (FilterSchedulerClusters L conds schedulerClusters)"
    by (simp add: FindSchedulerClusters_cases split: if_splits)
  then have "mset ranked = mset (FilterSchedulerClusters L conds schedulerClusters)"
    using r by (simp add: rearranges_def)
  then have "set ranked = set (FilterSchedulerClusters L conds schedulerClusters)"
    by (rule mset_eq_setD)
  with no show "c \<notin> set ranked" by simp
qed

theorem idle_cluster_never_returned_witness:
  "Schedulers idleCluster = [] \<and> IsDefault idleCluster \<and> rearranges (Slice stdlib) \<and>
   FindSchedulerClusters stdlib [idleCluster, defaultCluster] ''10.0.0.9'' [] Map.empty
     = Inr [defaultCluster] \<and>
   idleCluster \<notin> set (FilterSchedulerClusters stdlib Map.empty [idleCluster, defaultCluster]) \<and>
   idleCluster \<notin> set [defaultCluster]"
proof -
  have i: "Schedulers idleCluster = []" "IsDefault idleCluster" by (simp_all add: idleCluster_def)
  have r: "rearranges (Slice stdlib)"
    by (simp add: stdlib_def rearranges_def mset_insertionSort)
  have f: "FilterSchedulerClusters stdlib Map.empty [idleCluster, defaultCluster] = [defaultCluster]"
    by (simp add: FilterSchedulerClusters_def index_def idleCluster_def defaultCluster_def)
  have s: "FindSchedulerClusters stdlib [idleCluster, defaultCluster] ''10.0.0.9'' [] Map.empty
     = Inr [defaultCluster]"
    by (simp add: FindSchedulerClusters_cases f) (simp add: stdlib_def insertionSort_def)
  show ?thesis
    using idle_cluster_never_returned [OF i(1), of stdlib Map.empty "[idleCluster, defaultCluster]"
        "''10.0.0.9''" "[]"] i r s
    by simp
qed

text \<open>
  C10. If the client IP is not a parseable address, the containment query fails, the
  failure is swallowed and the CIDR sub-score is 0.0, whatever the CIDRs of the scope;
  \<open>Evaluate\<close> still returns a score between 0.0 and 1.0, and the request fails only for
  the reasons it fails for with any other IP: no candidates, or none left by the filter.
\<close>

theorem unparsable_ip_scores_zero:
  "ParseIP L ip = None \<Longrightarrow>
   calculateCIDRAffinityScore L ip cidrs = 0 \<and>
   Evaluate L ip hostname conds scopes cluster \<in> {0..1} \<and>
   ((\<exists>e. FindSchedulerClusters L schedulerClusters ip hostname conds = Inl e) \<longleftrightarrow>
      schedulerClusters = [] \<or> FilterSchedulerClusters L conds schedulerClusters = [])"
  by (auto simp: cidr_score_cases Evaluate_bounds FindSchedulerClusters_cases)

theorem unparsable_ip_scores_zero_witness:
  "ParseIP stdlib ''10.0.0'' = None \<and>
   calculateCIDRAffinityScore stdlib ''10.0.0'' [''10.0.0.0/24''] = 0 \<and>
   FindSchedulerClusters stdlib [edgeCluster] ''10.0.0'' [] Map.empty = Inr [edgeCluster]"
proof -
  have p: "ParseIP stdlib ''10.0.0'' = None"
    by (simp add: stdlib_def parseIPv4_def Split_def octet_def decimal_def digitVal_def)
  have f: "FilterSchedulerClusters stdlib Map.empty [edgeCluster] = [edgeCluster]"
    by (simp add: FilterSchedulerClusters_def index_def edgeCluster_def)
  have s: "FindSchedulerClusters stdlib [edgeCluster] ''10.0.0'' [] Map.empty = Inr [edgeCluster]"
    by (simp add: FindSchedulerClusters_cases f) (simp add: stdlib_def insertionSort_def)
  show ?thesis
    using unparsable_ip_scores_zero [OF p, of "[''10.0.0.0/24'']" "[]" Map.empty
        "\<lparr>IDC = ''x'', Location = [], CIDRs = [''10.0.0.0/24'']\<rparr>" edgeCluster "[edgeCluster]"] p s
    by simp
qed

end
